theory Spec2Isabelle
  imports Main
begin

section \<open>Strings of the source language\<close>

text \<open>
  A TypeScript string is a sequence of UTF-16 code units. It is modelled as the list of
  its code units, each a natural number; \<open>js\<close> turns a literal of the source into
  that list. \<open>length\<close>, \<open>take\<close> and \<open>@\<close> then count and cut what the source's
  \<open>length\<close>, \<open>slice\<close> and \<open>+\<close> count and cut.
\<close>

type_synonym jsstring = "nat list"

definition js :: "string \<Rightarrow> jsstring" where
  "js s = map of_char s"

section \<open>The anonymization engine (lib/dicom-processor, in src/unnamed/part_000)\<close>

subsection \<open>btoa\<close>

text \<open>
  \<open>btoa\<close> is the host's Base64 encoder. It reads every code unit of its argument as
  one byte and raises \<open>InvalidCharacterError\<close> when a code unit is above 255. Three
  bytes become four characters of the alphabet; a last group of one or two bytes is
  padded with \<open>=\<close> (code unit 61).
\<close>

datatype exn = InvalidCharacterError

definition b64_alphabet :: jsstring where
  "b64_alphabet = js ''ABCDEFGHIJKLMNOPQRSTUVWXYZabcdefghijklmnopqrstuvwxyz0123456789+/''"

definition b64_char :: "nat \<Rightarrow> nat" where
  "b64_char n = b64_alphabet ! (n mod 64)"

fun b64_encode :: "nat list \<Rightarrow> jsstring" where
  "b64_encode [] = []"
| "b64_encode [a] = [b64_char (a div 4), b64_char ((a mod 4) * 16), 61, 61]"
| "b64_encode [a, b] =
     [b64_char (a div 4), b64_char ((a mod 4) * 16 + b div 16), b64_char ((b mod 16) * 4), 61]"
| "b64_encode (a # b # c # rest) =
     [b64_char (a div 4), b64_char ((a mod 4) * 16 + b div 16),
      b64_char ((b mod 16) * 4 + c div 64), b64_char (c mod 64)] @ b64_encode rest"

definition latin1 :: "jsstring \<Rightarrow> bool" where
  "latin1 s = list_all (\<lambda>c. c < 256) s"

definition btoa :: "jsstring \<Rightarrow> exn + jsstring" where
  "btoa s = (if latin1 s then Inr (b64_encode s) else Inl InvalidCharacterError)"

subsection \<open>generatePseudonym\<close>

text \<open>
  \<open>salt || "default_salt"\<close>: the operator \<open>||\<close> takes its right operand when the left one
  is falsy, and both \<open>undefined\<close> (here \<open>None\<close>) and the empty string are falsy.
  \<open>slice(0, 12)\<close> keeps the first twelve code units. An exception of \<open>btoa\<close> is not
  caught here and propagates to the caller.
\<close>

definition or_default :: "jsstring option \<Rightarrow> jsstring \<Rightarrow> jsstring" where
  "or_default v d = (case v of None \<Rightarrow> d | Some s \<Rightarrow> if s = [] then d else s)"

definition generatePseudonym :: "jsstring \<Rightarrow> jsstring option \<Rightarrow> exn + jsstring" where
  "generatePseudonym val salt =
     (let actualSalt = or_default salt (js ''default_salt'')
      in case btoa (val @ actualSalt) of
           Inl e \<Rightarrow> Inl e
         | Inr b \<Rightarrow> (let hash = take 12 b in Inr (js ''anon_'' @ hash)))"

subsection \<open>String helpers of the host\<close>

text \<open>
  \<open>toLowerCase\<close> is modelled on the Latin-1 range (A to Z and the accented capitals);
  the host maps the code units beyond it by the Unicode tables, which this model leaves
  alone. No property below depends on the case mapping of a file name.
  \<open>js_includes\<close> is the substring test \<^verbatim>\<open>includes\<close> of the source.

  \<open>number_toString\<close> is \<open>Number.prototype.toString\<close> on the numbers the source applies it
  to, which are integers: clock readings, their differences, random integers. An integer
  of magnitude up to \<open>2^53\<close> is written with all its decimal digits. Beyond that not every
  integer is a number of the language, and the host writes the shortest digits that
  determine the number, padded with zeros or, from \<open>10^21\<close> on, in exponent notation: that
  text is a parameter, \<open>large_text\<close>.
\<close>

definition lower_unit :: "nat \<Rightarrow> nat" where
  "lower_unit c =
     (if (65 \<le> c \<and> c \<le> 90) \<or> (192 \<le> c \<and> c \<le> 222 \<and> c \<noteq> 215) then c + 32 else c)"

definition toLowerCase :: "jsstring \<Rightarrow> jsstring" where
  "toLowerCase s = map lower_unit s"

fun starts_with :: "jsstring \<Rightarrow> jsstring \<Rightarrow> bool" where
  "starts_with s [] = True"
| "starts_with [] (p # ps) = False"
| "starts_with (c # cs) (p # ps) = (c = p \<and> starts_with cs ps)"

fun js_includes :: "jsstring \<Rightarrow> jsstring \<Rightarrow> bool" where
  "js_includes [] sub = (sub = [])"
| "js_includes (c # cs) sub = (starts_with (c # cs) sub \<or> js_includes cs sub)"

fun digits :: "nat \<Rightarrow> jsstring" where
  "digits n = (if n < 10 then [48 + n] else digits (n div 10) @ [48 + n mod 10])"

declare digits.simps [simp del]

text \<open>The number that a text of decimal digits stands for.\<close>

definition read_digits :: "jsstring \<Rightarrow> int" where
  "read_digits ds = foldl (\<lambda>a c. 10 * a + (int c - 48)) 0 ds"

definition number_toString :: "(int \<Rightarrow> jsstring) \<Rightarrow> int \<Rightarrow> jsstring" where
  "number_toString large_text i =
     (if \<bar>i\<bar> \<le> 2 ^ 53 then (if i < 0 then 45 # digits (nat (- i)) else digits (nat i))
      else large_text i)"

subsection \<open>The data model\<close>

record PrivateTag =
  tag :: jsstring
  group :: jsstring
  element :: jsstring
  keyword :: jsstring
  name :: jsstring
  creator :: jsstring
  value_preview :: jsstring

record DicomMetadata =
  patient_id :: jsstring
  patient_name :: jsstring
  patient_age :: jsstring
  patient_sex :: jsstring
  modality :: jsstring
  body_part_examined :: jsstring
  study_description :: jsstring
  study_date_time :: jsstring
  phi_removed :: jsstring
  manufacturer :: jsstring
  model :: jsstring
  software_versions :: jsstring
  magnetic_field_strength :: jsstring
  slice_thickness :: jsstring
  pixel_spacing :: jsstring
  rows :: jsstring
  columns :: jsstring
  photometric_interpretation :: jsstring
  study_instance_uid :: jsstring
  series_instance_uid :: jsstring
  transfer_syntax_uid :: jsstring
  number_of_frames :: "int option"
  phi_flags :: "jsstring list"
  urgent :: bool
  urgent_reasons :: "jsstring list"
  private_tags :: "PrivateTag list"

datatype anonymize_mode = Pseudonymize | Remove

record ProcessingOptions =
  anonymize :: bool
  anonymize_mode :: anonymize_mode
  anonymize_tags :: "jsstring list option"
  anonymize_salt :: "jsstring option"
  remove_private_tags :: bool
  output_formats :: "jsstring list"

record ProcessingResult =
  success :: bool
  metadata :: "DicomMetadata option"
  error :: "jsstring option"
  file_path :: jsstring
  processing_time :: int

subsection \<open>processDicomFile\<close>

text \<open>
  What the function reads from its host is a parameter: the clock at entry and at
  exit (\<open>Date.now()\<close>), the ISO text of the current date, the clock and the random
  number each of the two \<open>generateUID\<close> calls draws, the message text the host gives an
  exception, and the text it gives a number beyond \<open>2^53\<close>. The simulated delay only passes
  time. The \<open>fileBuffer\<close>
  argument is never read by the source and is left out.
\<close>

record host =
  now_entry :: int
  now_exit :: int
  iso_now :: jsstring
  uid_now1 :: int
  uid_random1 :: int
  uid_now2 :: int
  uid_random2 :: int
  exn_message :: "exn \<Rightarrow> jsstring"
  large_number_text :: "int \<Rightarrow> jsstring"

definition getModalityFromFileName :: "jsstring \<Rightarrow> jsstring" where
  "getModalityFromFileName fileName =
     (let name' = toLowerCase fileName
      in if js_includes name' (js ''ct'') then js ''CT''
         else if js_includes name' (js ''mr'') \<or> js_includes name' (js ''mri'') then js ''MR''
         else if js_includes name' (js ''us'') then js ''US''
         else if js_includes name' (js ''xr'') \<or> js_includes name' (js ''dx'') then js ''DX''
         else js ''CT'')"

definition getBodyPartFromFileName :: "jsstring \<Rightarrow> jsstring" where
  "getBodyPartFromFileName fileName =
     (let name' = toLowerCase fileName
      in if js_includes name' (js ''head'') \<or> js_includes name' (js ''brain'') then js ''HEAD''
         else if js_includes name' (js ''chest'') \<or> js_includes name' (js ''thorax'') then js ''CHEST''
         else if js_includes name' (js ''abdomen'') \<or> js_includes name' (js ''pelvis'') then js ''ABDOMEN''
         else js ''CHEST'')"

definition generateUID :: "(int \<Rightarrow> jsstring) \<Rightarrow> int \<Rightarrow> int \<Rightarrow> jsstring" where
  "generateUID large_text now random =
     js ''1.2.840.10008.'' @ number_toString large_text now @ js ''.'' @
     number_toString large_text random"

definition urgentKeywords :: "jsstring list" where
  "urgentKeywords = [js ''trauma'', js ''stroke'', js ''emergency'', js ''stat'', js ''urgent'']"

definition checkUrgency :: "jsstring \<Rightarrow> jsstring \<Rightarrow> bool" where
  "checkUrgency modality' description =
     (list_ex (\<lambda>keyword'. js_includes (toLowerCase description) keyword') urgentKeywords \<or>
      (modality' = js ''CT'' \<and> js_includes (toLowerCase description) (js ''head'')))"

definition failed :: "host \<Rightarrow> jsstring \<Rightarrow> exn \<Rightarrow> ProcessingResult" where
  "failed h fileName e =
     \<lparr>success = False, metadata = None, error = Some (exn_message h e),
      file_path = fileName, processing_time = now_exit h - now_entry h\<rparr>"

definition mockMetadata ::
  "host \<Rightarrow> jsstring \<Rightarrow> ProcessingOptions \<Rightarrow> jsstring \<Rightarrow> jsstring \<Rightarrow> DicomMetadata" where
  "mockMetadata h fileName options pid pname =
     \<lparr>patient_id = pid,
      patient_name = pname,
      patient_age = js ''45Y'',
      patient_sex = js ''M'',
      modality = getModalityFromFileName fileName,
      body_part_examined = getBodyPartFromFileName fileName,
      study_description = js ''Routine examination'',
      study_date_time = iso_now h,
      phi_removed = (if anonymize options then js ''YES'' else js ''NO''),
      manufacturer = js ''SIEMENS'',
      model = js ''SOMATOM Definition AS'',
      software_versions = js ''syngo CT 2012B'',
      magnetic_field_strength = js ''N/A'',
      slice_thickness = js ''5.0'',
      pixel_spacing = js ''[0.976562, 0.976562]'',
      rows = js ''512'',
      columns = js ''512'',
      photometric_interpretation = js ''MONOCHROME2'',
      study_instance_uid = generateUID (large_number_text h) (uid_now1 h) (uid_random1 h),
      series_instance_uid = generateUID (large_number_text h) (uid_now2 h) (uid_random2 h),
      transfer_syntax_uid = js ''1.2.840.10008.1.2.1'',
      number_of_frames = None,
      phi_flags = (if anonymize options then [] else [js ''PatientName'', js ''PatientID'']),
      urgent = checkUrgency (getModalityFromFileName fileName) (js ''Routine examination''),
      urgent_reasons =
        (if checkUrgency (getModalityFromFileName fileName) (js ''Routine examination'')
         then [js ''Routine screening''] else []),
      private_tags = []\<rparr>"

text \<open>
  The object literal evaluates its fields in order, so the pseudonym of the patient id
  is computed before that of the patient name; an exception of either leaves the
  \<open>try\<close> block, and the \<open>catch\<close> returns the failed result.
\<close>

definition processDicomFile :: "host \<Rightarrow> jsstring \<Rightarrow> ProcessingOptions \<Rightarrow> ProcessingResult" where
  "processDicomFile h fileName options =
     (case (if anonymize options
            then generatePseudonym (js ''PATIENT_001'') (anonymize_salt options)
            else Inr (js ''PATIENT_001'')) of
        Inl e \<Rightarrow> failed h fileName e
      | Inr pid \<Rightarrow>
          (case (if anonymize options
                 then generatePseudonym (js ''John Doe'') (anonymize_salt options)
                 else Inr (js ''John Doe'')) of
             Inl e \<Rightarrow> failed h fileName e
           | Inr pname \<Rightarrow>
               \<lparr>success = True,
                metadata = Some (mockMetadata h fileName options pid pname),
                error = None,
                file_path = fileName,
                processing_time = now_exit h - now_entry h\<rparr>))"

text \<open>
  The fields configured for anonymization (components/anonymization-settings): the
  supplied list, or the built-in one when none is supplied. An empty supplied list is
  truthy in the source, so it stands.
\<close>

definition DEFAULT_ANONYMIZATION_TAGS :: "jsstring list" where
  "DEFAULT_ANONYMIZATION_TAGS =
     [js ''patient_name'', js ''patient_id'', js ''patient_birth_date'',
      js ''patient_birth_time'', js ''patient_age'', js ''patient_address'',
      js ''other_patient_ids'', js ''other_patient_names'', js ''referring_physician_name'',
      js ''performing_physician_name'', js ''operators_name'', js ''institution_name'',
      js ''station_name'', js ''accession_number'', js ''study_id'',
      js ''series_description'', js ''study_comments'']"

definition tagsToUse :: "ProcessingOptions \<Rightarrow> jsstring list" where
  "tagsToUse options =
     (case anonymize_tags options of None \<Rightarrow> DEFAULT_ANONYMIZATION_TAGS | Some tags \<Rightarrow> tags)"

text \<open>Inputs of the examples below: a host, and options asking for removal.\<close>

definition example_host :: host where
  "example_host =
     \<lparr>now_entry = 1000, now_exit = 2500, iso_now = js ''2024-01-01T00:00:00.000Z'',
      uid_now1 = 2400, uid_random1 = 17, uid_now2 = 2400, uid_random2 = 99,
      exn_message = (\<lambda>e. js ''Invalid character''),
      large_number_text = (\<lambda>i. js ''1e+21'')\<rparr>"

definition remove_options :: ProcessingOptions where
  "remove_options =
     \<lparr>anonymize = True, anonymize_mode = Remove, anonymize_tags = None,
      anonymize_salt = None, remove_private_tags = True, output_formats = [js ''json'']\<rparr>"

section \<open>The report aggregator (lib/report-generator, in src/unnamed/part_000)\<close>

subsection \<open>Plain objects used as dictionaries\<close>

text \<open>
  \<open>Record<string, number>\<close> is, at run time, a plain object created by \<open>{}\<close>. It is
  modelled by the list of its own properties in the order in which the language
  enumerates them (array indices first, in ascending order, then the other names in the
  order of their creation), together with what the
  language adds to every plain object: a property that is not its own is looked up in
  \<open>Object.prototype\<close>, whose properties are named in \<open>object_prototype_names\<close>. Reading
  one of those yields a function (for \<open>__proto__\<close> the prototype object itself), here
  \<open>Obj t\<close> with \<open>t\<close> the text the host converts it to. Assigning to \<open>__proto__\<close> runs the
  inherited setter, which ignores a value that is not an object (an object would become
  the new prototype; the counting below never assigns one); assigning to any other name
  creates or overwrites an own property.
\<close>

datatype jsvalue = Undefined | NaN | Num nat | Str jsstring | Obj jsstring

type_synonym jsrecord = "(jsstring \<times> jsvalue) list"

definition object_prototype_names :: "jsstring list" where
  "object_prototype_names =
     [js ''constructor'', js ''__defineGetter__'', js ''__defineSetter__'',
      js ''hasOwnProperty'', js ''__lookupGetter__'', js ''__lookupSetter__'',
      js ''isPrototypeOf'', js ''propertyIsEnumerable'', js ''toString'', js ''valueOf'',
      js ''__proto__'', js ''toLocaleString'']"

definition get_prop :: "(jsstring \<Rightarrow> jsstring) \<Rightarrow> jsrecord \<Rightarrow> jsstring \<Rightarrow> jsvalue" where
  "get_prop host_text r k =
     (case map_of r k of
        Some v \<Rightarrow> v
      | None \<Rightarrow> if k \<in> set object_prototype_names then Obj (host_text k) else Undefined)"

text \<open>
  An array index is the decimal text, without a leading zero, of a number up to
  \<open>2^32 - 2\<close>. Writing an own property that exists keeps its place; a new array index
  goes before the first property that is not a smaller array index; any other new name
  goes to the end.
\<close>

definition is_array_index :: "jsstring \<Rightarrow> bool" where
  "is_array_index k =
     (k \<noteq> [] \<and> list_all (\<lambda>c. 48 \<le> c \<and> c \<le> 57) k \<and> (length k = 1 \<or> hd k \<noteq> 48) \<and>
      read_digits k \<le> 4294967294)"

fun replace_own :: "jsrecord \<Rightarrow> jsstring \<Rightarrow> jsvalue \<Rightarrow> jsrecord" where
  "replace_own [] k v = []"
| "replace_own ((k', v') # r) k v =
     (if k' = k then (k, v) # r else (k', v') # replace_own r k v)"

fun insert_index :: "jsrecord \<Rightarrow> jsstring \<Rightarrow> jsvalue \<Rightarrow> jsrecord" where
  "insert_index [] k v = [(k, v)]"
| "insert_index ((k', v') # r) k v =
     (if is_array_index k' \<and> read_digits k' < read_digits k
      then (k', v') # insert_index r k v else (k, v) # (k', v') # r)"

definition own_update :: "jsrecord \<Rightarrow> jsstring \<Rightarrow> jsvalue \<Rightarrow> jsrecord" where
  "own_update r k v =
     (if map_of r k \<noteq> None then replace_own r k v
      else if is_array_index k then insert_index r k v
      else r @ [(k, v)])"

fun is_object :: "jsvalue \<Rightarrow> bool" where
  "is_object (Obj t) = True"
| "is_object v = False"

definition set_prop :: "jsrecord \<Rightarrow> jsstring \<Rightarrow> jsvalue \<Rightarrow> jsrecord" where
  "set_prop r k v =
     (if k = js ''__proto__'' \<and> \<not> is_object v then r else own_update r k v)"

fun truthy :: "jsvalue \<Rightarrow> bool" where
  "truthy Undefined = False"
| "truthy NaN = False"
| "truthy (Num n) = (n \<noteq> 0)"
| "truthy (Str s) = (s \<noteq> [])"
| "truthy (Obj t) = True"

definition js_or :: "jsvalue \<Rightarrow> jsvalue \<Rightarrow> jsvalue" where
  "js_or a b = (if truthy a then a else b)"

text \<open>\<open>v + 1\<close>: addition on a number, concatenation of \<open>"1"\<close> on a string or an object.\<close>

fun plus_one :: "jsvalue \<Rightarrow> jsvalue" where
  "plus_one Undefined = NaN"
| "plus_one NaN = NaN"
| "plus_one (Num n) = Num (n + 1)"
| "plus_one (Str s) = Str (s @ js ''1'')"
| "plus_one (Obj t) = Str (t @ js ''1'')"

text \<open>\<open>r[k] = (r[k] || 0) + 1\<close>\<close>

definition count_key :: "(jsstring \<Rightarrow> jsstring) \<Rightarrow> jsrecord \<Rightarrow> jsstring \<Rightarrow> jsrecord" where
  "count_key host_text r k = set_prop r k (plus_one (js_or (get_prop host_text r k) (Num 0)))"

subsection \<open>generateSummary\<close>

datatype outcome_status = Success | Error

record ProcessedFileData =
  fileName :: jsstring
  fileSize :: int
  metadata :: DicomMetadata
  processingTime :: int
  status :: outcome_status
  error :: "jsstring option"

record ReportSummary =
  totalFiles :: nat
  successfulFiles :: nat
  failedFiles :: nat
  totalProcessingTime :: int
  urgentStudies :: nat
  phiDetected :: nat
  anonymizedFiles :: nat
  modalities :: jsrecord
  bodyParts :: jsrecord
  manufacturers :: jsrecord

text \<open>
  The body of the \<open>forEach\<close> over the successful files, on the six variables it updates
  (carried in a summary whose other fields it leaves alone).
\<close>

definition count_file ::
  "(jsstring \<Rightarrow> jsstring) \<Rightarrow> ReportSummary \<Rightarrow> ProcessedFileData \<Rightarrow> ReportSummary" where
  "count_file host_text acc f =
     (let md = ProcessedFileData.metadata f
      in acc\<lparr>modalities := count_key host_text (modalities acc) (modality md),
             bodyParts := count_key host_text (bodyParts acc) (body_part_examined md),
             manufacturers := count_key host_text (manufacturers acc) (manufacturer md),
             urgentStudies := (if urgent md then urgentStudies acc + 1 else urgentStudies acc),
             phiDetected :=
               (if length (phi_flags md) > 0 then phiDetected acc + 1 else phiDetected acc),
             anonymizedFiles :=
               (if phi_removed md = js ''YES'' then anonymizedFiles acc + 1
                else anonymizedFiles acc)\<rparr>)"

definition generateSummary :: "(jsstring \<Rightarrow> jsstring) \<Rightarrow> ProcessedFileData list \<Rightarrow> ReportSummary" where
  "generateSummary host_text files =
     (let successful = filter (\<lambda>f. status f = Success) files;
          failed = filter (\<lambda>f. status f = Error) files
      in foldl (count_file host_text)
           \<lparr>totalFiles = length files,
            successfulFiles = length successful,
            failedFiles = length failed,
            totalProcessingTime = foldl (\<lambda>sum f. sum + processingTime f) 0 files,
            urgentStudies = 0, phiDetected = 0, anonymizedFiles = 0,
            modalities = [], bodyParts = [], manufacturers = []\<rparr>
           successful)"

text \<open>
  The sum of all values of a frequency map: defined when every value is a number.
\<close>

fun values_sum :: "jsrecord \<Rightarrow> nat option" where
  "values_sum [] = Some 0"
| "values_sum ((k, Num n) # r) = map_option (\<lambda>t. n + t) (values_sum r)"
| "values_sum ((k, v) # r) = None"

text \<open>Inputs of the examples below.\<close>

definition example_metadata :: DicomMetadata where
  "example_metadata =
     \<lparr>patient_id = js ''anon_1'', patient_name = js ''anon_2'', patient_age = js ''45Y'',
      patient_sex = js ''M'', modality = js ''CT'', body_part_examined = js ''CHEST'',
      study_description = js ''Routine examination'', study_date_time = js ''2024-01-01'',
      phi_removed = js ''YES'', manufacturer = js ''SIEMENS'', model = js ''SOMATOM'',
      software_versions = js ''1'', magnetic_field_strength = js ''N/A'',
      slice_thickness = js ''5.0'', pixel_spacing = js ''1'', rows = js ''512'',
      columns = js ''512'', photometric_interpretation = js ''MONOCHROME2'',
      study_instance_uid = js ''1.2'', series_instance_uid = js ''1.3'',
      transfer_syntax_uid = js ''1.2.840.10008.1.2.1'', number_of_frames = None,
      phi_flags = [], urgent = False, urgent_reasons = [], private_tags = []\<rparr>"

definition example_file :: "jsstring \<Rightarrow> jsstring \<Rightarrow> ProcessedFileData" where
  "example_file fname modality' =
     \<lparr>fileName = fname, fileSize = 1024,
      metadata = example_metadata\<lparr>modality := modality'\<rparr>,
      processingTime = 1500, status = Success, error = None\<rparr>"

definition example_host_text :: "jsstring \<Rightarrow> jsstring" where
  "example_host_text k =
     (if k = js ''__proto__'' then js ''[object Object]''
      else js ''function () { [native code] }'')"

text \<open>An outcome none of whose three counted keys names a property of \<open>Object.prototype\<close>.\<close>

definition plain_keys :: "ProcessedFileData \<Rightarrow> bool" where
  "plain_keys f =
     (modality (ProcessedFileData.metadata f) \<notin> set object_prototype_names \<and>
      body_part_examined (ProcessedFileData.metadata f) \<notin> set object_prototype_names \<and>
      manufacturer (ProcessedFileData.metadata f) \<notin> set object_prototype_names)"

section \<open>The delimited-text report (lib/report-generator, in src/unnamed/part_000)\<close>

subsection \<open>generateCSVReport\<close>

record ReportData =
  files :: "ProcessedFileData list"
  summary :: ReportSummary
  processingOptions :: ProcessingOptions
  generatedAt :: jsstring
  reportId :: jsstring

text \<open>\<open>Array.prototype.join\<close> on an array of strings.\<close>

fun join :: "jsstring \<Rightarrow> jsstring list \<Rightarrow> jsstring" where
  "join sep [] = []"
| "join sep [x] = x"
| "join sep (x # y # ys) = x @ sep @ join sep (y # ys)"

text \<open>
  \<open>cell.replace(/"/g, '""')\<close> doubles every quote character (code unit 34); the template
  literal then puts one quote before and one after.
\<close>

definition escape_quotes :: "jsstring \<Rightarrow> jsstring" where
  "escape_quotes cell = concat (map (\<lambda>c. if c = 34 then [34, 34] else [c]) cell)"

definition quote_cell :: "jsstring \<Rightarrow> jsstring" where
  "quote_cell cell = [34] @ escape_quotes cell @ [34]"

definition csv_headers :: "jsstring list" where
  "csv_headers =
     [js ''File Name'', js ''Status'', js ''Processing Time (ms)'', js ''Patient ID'',
      js ''Patient Name'', js ''Age'', js ''Sex'', js ''Modality'', js ''Body Part'',
      js ''Study Description'', js ''Study Date'', js ''Manufacturer'', js ''Model'',
      js ''Urgent'', js ''PHI Removed'', js ''PHI Flags'']"

definition status_text :: "outcome_status \<Rightarrow> jsstring" where
  "status_text st = (case st of Success \<Rightarrow> js ''success'' | Error \<Rightarrow> js ''error'')"

definition csv_row :: "(int \<Rightarrow> jsstring) \<Rightarrow> ProcessedFileData \<Rightarrow> jsstring list" where
  "csv_row large_text file =
     (let md = ProcessedFileData.metadata file; ok = (status file = Success)
      in [fileName file,
          status_text (status file),
          number_toString large_text (processingTime file),
          if ok then patient_id md else [],
          if ok then patient_name md else [],
          if ok then patient_age md else [],
          if ok then patient_sex md else [],
          if ok then modality md else [],
          if ok then body_part_examined md else [],
          if ok then study_description md else [],
          if ok then study_date_time md else [],
          if ok then manufacturer md else [],
          if ok then model md else [],
          if ok then (if urgent md then js ''YES'' else js ''NO'') else [],
          if ok then phi_removed md else [],
          if ok then join (js '';'') (phi_flags md) else []])"

definition generateCSVReport :: "(int \<Rightarrow> jsstring) \<Rightarrow> ReportData \<Rightarrow> jsstring" where
  "generateCSVReport large_text data =
     (let rows' = map (csv_row large_text) (files data)
      in join [10] (map (\<lambda>row. join (js '','') (map quote_cell row)) (csv_headers # rows')))"

text \<open>One row of the text: the quoted cells joined by commas.\<close>

definition render_row :: "jsstring list \<Rightarrow> jsstring" where
  "render_row row = join (js '','') (map quote_cell row)"

subsection \<open>Reading delimited text back\<close>

text \<open>
  The reader that the round-trip property speaks of, written from the specification's
  words (rows of quoted fields, an embedded quote written twice): it is not part of the
  source. It goes through the text once. A field opens with a quote; inside the field two
  quotes in a row stand for one quote character and any other code unit, a comma or a
  line feed included, stands for itself; after the closing quote a comma opens the next
  field of the row, a line feed opens the next row, and the end of the text ends the last
  row. Any other text is refused with \<open>None\<close>.
\<close>

datatype csv_state = Field_start | In_quotes | After_quote

fun csv_scan ::
  "csv_state \<Rightarrow> jsstring \<Rightarrow> jsstring list \<Rightarrow> jsstring list list \<Rightarrow> jsstring
     \<Rightarrow> jsstring list list option" where
  "csv_scan Field_start fld row done [] = None"
| "csv_scan Field_start fld row done (c # cs) =
     (if c = 34 then csv_scan In_quotes [] row done cs else None)"
| "csv_scan In_quotes fld row done [] = None"
| "csv_scan In_quotes fld row done (c # cs) =
     (if c = 34 then csv_scan After_quote fld row done cs
      else csv_scan In_quotes (c # fld) row done cs)"
| "csv_scan After_quote fld row done [] = Some (rev (rev (rev fld # row) # done))"
| "csv_scan After_quote fld row done (c # cs) =
     (if c = 34 then csv_scan In_quotes (34 # fld) row done cs
      else if c = 44 then csv_scan Field_start [] (rev fld # row) done cs
      else if c = 10 then csv_scan Field_start [] [] (rev (rev fld # row) # done) cs
      else None)"

definition csv_parse :: "jsstring \<Rightarrow> jsstring list list option" where
  "csv_parse text' = csv_scan Field_start [] [] [] text'"

text \<open>
  The reader of the decimal text of an integer, which the round trip of the processing
  time refers to; like the reader of the rows it is not part of the source.
  (\<open>read_digits\<close>, the number that a text of decimal digits stands for, is defined with
  the string helpers.)
\<close>

definition read_number :: "jsstring \<Rightarrow> int" where
  "read_number s =
     (case s of
        [] \<Rightarrow> 0
      | c # cs \<Rightarrow> if c = 45 then - read_digits cs else read_digits s)"

text \<open>
  Inputs of the examples below: a report of a successful outcome, with a comma in its
  file name and a quote in its modality, and of a failed one.
\<close>

definition example_report :: ReportData where
  "example_report =
     \<lparr>files =
        [\<lparr>fileName = js ''a,b.dcm'', fileSize = 1024,
          metadata = example_metadata
            \<lparr>modality := js ''C\"T'', phi_removed := js ''NO'', urgent := True,
             phi_flags := [js ''PatientName'', js ''PatientID'']\<rparr>,
          processingTime = 1500, status = Success, error = None\<rparr>,
         \<lparr>fileName = js ''bad.dcm'', fileSize = 2048, metadata = example_metadata,
          processingTime = 12, status = Error, error = Some (js ''Network error'')\<rparr>],
      summary = generateSummary example_host_text [],
      processingOptions = remove_options,
      generatedAt = js ''2024-01-01T00:00:00.000Z'',
      reportId = js ''report_1_abcdef''\<rparr>"

section \<open>The batch orchestrator (BatchProcessingDashboard, in src/components/metadata-display.tsx)\<close>

subsection \<open>Jobs and files\<close>

datatype file_status = File_queued | File_processing | File_completed | File_error | File_paused

datatype job_status = Job_idle | Job_running | Job_paused | Job_completed | Job_error

text \<open>The browser's \<open>File\<close>: of a file the orchestrator only reads the name and the size.\<close>

record DomFile =
  dom_name :: jsstring
  dom_size :: int

record BatchFile =
  id :: jsstring
  file' :: DomFile
  status :: file_status
  progress :: nat
  metadata :: "DicomMetadata option"
  error :: "jsstring option"
  processingTime :: "int option"
  startTime :: "int option"

text \<open>
  The progress of a job is a JavaScript number that the source computes by a division: it
  is a natural number, or \<open>Infinity\<close>, or \<open>NaN\<close>. The progress of a file only ever takes the
  values that the source writes literally or adds up, which are natural numbers.
\<close>

datatype jsnumber = Finite nat | Infinity | Not_a_number

record BatchJob =
  id :: jsstring
  name :: jsstring
  files :: "BatchFile list"
  status :: job_status
  progress :: jsnumber
  startTime :: "int option"
  endTime :: "int option"
  processingOptions :: ProcessingOptions

text \<open>
  The state of the component: the \<open>jobs\<close> and \<open>activeJobId\<close> state variables and the
  \<open>processingController\<close> reference, which is \<open>null\<close> (\<open>None\<close>) or an abort controller,
  of which only the \<open>aborted\<close> flag of its signal matters.
\<close>

record dashboard =
  jobs :: "BatchJob list"
  activeJobId :: "jsstring option"
  processingController :: "bool option"

subsection \<open>The state updates\<close>

text \<open>
  Each \<open>setJobs((prev) => ...)\<close> of the source is a function on the list of jobs; React
  applies these updaters in the order of the calls. A job is addressed by its id, a file
  by its id within the job.
\<close>

definition update_job :: "jsstring \<Rightarrow> (BatchJob \<Rightarrow> BatchJob) \<Rightarrow> BatchJob list \<Rightarrow> BatchJob list" where
  "update_job jobId g prev = map (\<lambda>j. if BatchJob.id j = jobId then g j else j) prev"

definition update_file ::
  "jsstring \<Rightarrow> jsstring \<Rightarrow> (BatchFile \<Rightarrow> BatchFile) \<Rightarrow> BatchJob list \<Rightarrow> BatchJob list" where
  "update_file jobId fileId g prev =
     update_job jobId
       (\<lambda>j. j\<lparr>files := map (\<lambda>f. if BatchFile.id f = fileId then g f else f) (files j)\<rparr>) prev"

definition mark_running :: "int \<Rightarrow> BatchJob \<Rightarrow> BatchJob" where
  "mark_running now j = j\<lparr>BatchJob.status := Job_running, BatchJob.startTime := Some now\<rparr>"

definition mark_processing :: "int \<Rightarrow> BatchFile \<Rightarrow> BatchFile" where
  "mark_processing now f =
     f\<lparr>BatchFile.status := File_processing, BatchFile.progress := 0,
       BatchFile.startTime := Some now\<rparr>"

text \<open>The interval's update: ten more percent, at most ninety, while the file is processing.\<close>

definition tick :: "BatchFile \<Rightarrow> BatchFile" where
  "tick f =
     (if BatchFile.status f = File_processing
      then f\<lparr>BatchFile.progress := min (BatchFile.progress f + 10) 90\<rparr> else f)"

definition mark_file_completed :: "DicomMetadata \<Rightarrow> int \<Rightarrow> BatchFile \<Rightarrow> BatchFile" where
  "mark_file_completed md t f =
     f\<lparr>BatchFile.status := File_completed, BatchFile.progress := 100,
       BatchFile.metadata := Some md, BatchFile.processingTime := Some t\<rparr>"

definition mark_file_error :: "jsstring \<Rightarrow> BatchFile \<Rightarrow> BatchFile" where
  "mark_file_error msg f =
     f\<lparr>BatchFile.status := File_error, BatchFile.progress := 0, BatchFile.error := Some msg\<rparr>"

definition mark_file_paused :: "BatchFile \<Rightarrow> BatchFile" where
  "mark_file_paused f = f\<lparr>BatchFile.status := File_paused, BatchFile.progress := 0\<rparr>"

definition mark_job_completed :: "int \<Rightarrow> BatchJob \<Rightarrow> BatchJob" where
  "mark_job_completed now j =
     j\<lparr>BatchJob.status := Job_completed, BatchJob.endTime := Some now,
       BatchJob.progress := Finite 100\<rparr>"

subsection \<open>createNewJob\<close>

text \<open>
  The job id and the job name are made from the clock and a random number and are
  parameters here; the options are the component's current \<open>processingOptions\<close>, copied
  into the job. The new job goes to the front of the list. The index of a file in the
  array is below \<open>2^32\<close>, so its text in the file id is its decimal digits.
\<close>

definition createNewJob ::
  "jsstring \<Rightarrow> jsstring \<Rightarrow> ProcessingOptions \<Rightarrow> DomFile list \<Rightarrow> dashboard \<Rightarrow> dashboard" where
  "createNewJob jobId jobName options fs s =
     (let batchFiles =
            map (\<lambda>(fl, index).
                   \<lparr>BatchFile.id = jobId @ js ''_file_'' @ digits index,
                    file' = fl, status = File_queued, progress = 0, metadata = None,
                    error = None, processingTime = None, startTime = None\<rparr>)
                (zip fs [0 ..< length fs]);
          newJob =
            \<lparr>BatchJob.id = jobId, name = jobName, files = batchFiles, status = Job_idle,
             progress = Finite 0, startTime = None, endTime = None,
             processingOptions = options\<rparr>
      in s\<lparr>jobs := newJob # jobs s\<rparr>)"

subsection \<open>pauseJob and deleteJob\<close>

definition pauseJob :: "jsstring \<Rightarrow> dashboard \<Rightarrow> dashboard" where
  "pauseJob jobId s =
     s\<lparr>processingController := map_option (\<lambda>aborted. True) (processingController s),
       jobs := update_job jobId (\<lambda>j. j\<lparr>BatchJob.status := Job_paused\<rparr>) (jobs s),
       activeJobId := None\<rparr>"

definition deleteJob :: "jsstring \<Rightarrow> dashboard \<Rightarrow> dashboard" where
  "deleteJob jobId s =
     (let s1 = (if activeJobId s = Some jobId then pauseJob jobId s else s)
      in s1\<lparr>jobs := filter (\<lambda>j. BatchJob.id j \<noteq> jobId) (jobs s1)\<rparr>)"

subsection \<open>startJob\<close>

text \<open>
  \<open>startJob\<close> is asynchronous: it runs up to the \<open>fetch\<close> of a file, is suspended there,
  and goes on when the request settles. What happens while it is suspended comes from
  outside and is given to the model as a script, one entry per request in order: the
  number of interval ticks that fire during the request, and how the request ends.
  A request ends with a response (\<open>response.ok\<close> with the metadata and the processing time
  of the body, or a failure status with the \<open>error\<close> field of the body, possibly absent),
  or is rejected for a reason other than an abort (also when the body cannot be read), or
  is cut short by a call of \<open>pauseJob\<close>, which aborts the controller and so rejects the
  request with an \<open>AbortError\<close>. A script that ends before the queue does leaves the run
  suspended in that request: the result is \<open>Pending\<close> with the state at that point;
  \<open>Finished\<close> is the state when \<open>startJob\<close> has returned.
\<close>

datatype response = Response_ok DicomMetadata int | Response_failed "jsstring option"

datatype settlement = Responded response | Rejected | Interrupted_by_pause jsstring

type_synonym flight = "nat \<times> settlement"

datatype 'a run = Finished 'a | Pending 'a

text \<open>
  \<open>Math.round((completedFiles / totalFiles) * 100)\<close> is computed in IEEE double
  precision: the quotient is rounded to the nearest double, its product with 100 is
  rounded to the nearest double again, and \<open>Math.round\<close> takes the integer nearest to that,
  a half going upwards. A positive double is written here as a pair \<open>(m, e)\<close> of a
  mantissa and an exponent, both integers, and stands for \<open>m * 2^e\<close>.
  \<open>to_double num den\<close> is the double nearest to the fraction \<open>num / den\<close>, a tie going to the even mantissa: it has 53
  significant bits. (The exponent range of doubles is not modelled: the numbers here are
  counts of files, far inside it.)
\<close>

function bit_length :: "int \<Rightarrow> int" where
  "bit_length n = (if n \<le> 0 then 0 else 1 + bit_length (n div 2))"
  by pat_completeness auto
termination
  by (relation "measure nat") auto

declare bit_length.simps [simp del]

text \<open>The fraction \<open>num / (den * 2^e)\<close> as a numerator and a denominator.\<close>

definition scaled :: "int \<Rightarrow> int \<Rightarrow> int \<Rightarrow> int \<times> int" where
  "scaled num den e = (if 0 \<le> e then (num, den * 2 ^ nat e) else (num * 2 ^ nat (- e), den))"

definition to_double :: "int \<Rightarrow> int \<Rightarrow> int \<times> int" where
  "to_double num den =
     (let e0 = bit_length num - bit_length den - 52;
          e = (case scaled num den e0 of (n0, d0) \<Rightarrow> if n0 < d0 * 2 ^ 52 then e0 - 1 else e0)
      in case scaled num den e of
           (n, d) \<Rightarrow>
             (let q = n div d; r = n mod d
              in (if d < 2 * r \<or> (2 * r = d \<and> odd q) then q + 1 else q, e)))"

text \<open>The product of the double \<open>(m, e)\<close> with the integer \<open>k\<close>, rounded to a double.\<close>

definition double_times :: "int \<times> int \<Rightarrow> int \<Rightarrow> int \<times> int" where
  "double_times d k =
     (case d of (m, e) \<Rightarrow>
        if 0 \<le> e then to_double (k * m * 2 ^ nat e) 1 else to_double (k * m) (2 ^ nat (- e)))"

text \<open>\<open>Math.round\<close> of a positive double: \<open>floor (x + 1/2)\<close>.\<close>

definition math_round :: "int \<times> int \<Rightarrow> int" where
  "math_round d =
     (case d of (m, e) \<Rightarrow>
        if 0 \<le> e then m * 2 ^ nat e
        else (2 * m + 2 ^ nat (- e)) div 2 ^ (nat (- e) + 1))"

text \<open>
  Zero divided by zero is \<open>NaN\<close> and a positive number divided by zero is \<open>Infinity\<close>, and
  both stay what they are under the multiplication and under \<open>Math.round\<close>; zero divided by
  a positive number is zero.
\<close>

definition round_percent :: "nat \<Rightarrow> nat \<Rightarrow> jsnumber" where
  "round_percent c t =
     (if t = 0 then (if c = 0 then Not_a_number else Infinity)
      else if c = 0 then Finite 0
      else Finite (nat (math_round (double_times (to_double (int c) (int t)) 100))))"

definition terminal :: "file_status \<Rightarrow> bool" where
  "terminal st = (st = File_completed \<or> st = File_error)"

definition jobProgress :: "BatchJob \<Rightarrow> jsnumber" where
  "jobProgress updatedJob =
     (let completedFiles' = length (filter (\<lambda>f. terminal (BatchFile.status f)) (files updatedJob));
          totalFiles' = length (files updatedJob)
      in round_percent completedFiles' totalFiles')"

text \<open>How a request that has settled is written into the file (the four branches).\<close>

definition settle :: "jsstring \<Rightarrow> jsstring \<Rightarrow> settlement \<Rightarrow> dashboard \<Rightarrow> dashboard" where
  "settle jobId fileId how s =
     (case how of
        Responded (Response_ok md t) \<Rightarrow>
          s\<lparr>jobs := update_file jobId fileId (mark_file_completed md t) (jobs s)\<rparr>
      | Responded (Response_failed e) \<Rightarrow>
          s\<lparr>jobs := update_file jobId fileId
                      (mark_file_error (or_default e (js ''Processing failed''))) (jobs s)\<rparr>
      | Rejected \<Rightarrow>
          s\<lparr>jobs := update_file jobId fileId (mark_file_error (js ''Network error'')) (jobs s)\<rparr>
      | Interrupted_by_pause pausedId \<Rightarrow>
          (let s1 = pauseJob pausedId s
           in s1\<lparr>jobs := update_file jobId fileId mark_file_paused (jobs s1)\<rparr>))"

text \<open>
  The loop over \<open>queuedFiles\<close>. \<open>closure_jobs\<close> is the \<open>jobs\<close> that the running call of
  \<open>startJob\<close> sees: the value of the state variable when the call was made. The updaters
  act on the current state; the "updated job" whose progress is computed is looked up in
  \<open>closure_jobs\<close>.
\<close>

fun process_queue ::
  "BatchJob list \<Rightarrow> int \<Rightarrow> jsstring \<Rightarrow> BatchFile list \<Rightarrow> flight list \<Rightarrow> dashboard
     \<Rightarrow> dashboard run" where
  "process_queue closure_jobs now jobId [] script s = Finished s"
| "process_queue closure_jobs now jobId (f # queuedFiles) script s =
     (if processingController s = Some True then Finished s
      else
        let s1 = s\<lparr>jobs := update_file jobId (BatchFile.id f) (mark_processing now) (jobs s)\<rparr>
        in case script of
             [] \<Rightarrow> Pending s1
           | (ticks, how) # script' \<Rightarrow>
               (let s2 = s1\<lparr>jobs := (update_file jobId (BatchFile.id f) tick ^^ ticks) (jobs s1)\<rparr>;
                    s3 = settle jobId (BatchFile.id f) how s2;
                    s4 = (case find (\<lambda>j. BatchJob.id j = jobId) closure_jobs of
                            None \<Rightarrow> s3
                          | Some updatedJob \<Rightarrow>
                              s3\<lparr>jobs := update_job jobId
                                   (\<lambda>j. j\<lparr>BatchJob.progress := jobProgress updatedJob\<rparr>) (jobs s3)\<rparr>)
                in process_queue closure_jobs now jobId queuedFiles script' s4))"

text \<open>
  No statement between the outer \<open>try\<close> and its \<open>catch\<close> raises outside the inner \<open>try\<close>,
  so the branch that marks the job as \<open>error\<close> is never taken. After the loop, however it
  ended, the job is marked completed with progress 100, and the \<open>finally\<close> clears the
  active job and the controller.
\<close>

definition startJob :: "int \<Rightarrow> jsstring \<Rightarrow> flight list \<Rightarrow> dashboard \<Rightarrow> dashboard run" where
  "startJob now jobId script s =
     (case find (\<lambda>j. BatchJob.id j = jobId) (jobs s) of
        None \<Rightarrow> Finished s
      | Some job \<Rightarrow>
          if BatchJob.status job = Job_running then Finished s
          else
            let s1 = s\<lparr>activeJobId := Some jobId, processingController := Some False,
                       jobs := update_job jobId (mark_running now) (jobs s)\<rparr>;
                queuedFiles = filter (\<lambda>f. BatchFile.status f = File_queued \<or>
                                           BatchFile.status f = File_paused) (files job)
            in case process_queue (jobs s) now jobId queuedFiles script s1 of
                 Pending s' \<Rightarrow> Pending s'
               | Finished s' \<Rightarrow>
                   Finished (s'\<lparr>jobs := update_job jobId (mark_job_completed now) (jobs s'),
                                activeJobId := None, processingController := None\<rparr>))"

subsection \<open>The Start control\<close>

text \<open>
  The Start (or Resume) button of a job is rendered when the job is idle or paused, and is
  disabled while another job is the active one; a click on an enabled button calls
  \<open>startJob(job.id)\<close>, a click on a disabled one calls nothing. \<open>start_control\<close> is \<open>None\<close>
  when the button is not rendered, else its \<open>disabled\<close> attribute.
\<close>

definition start_control :: "dashboard \<Rightarrow> BatchJob \<Rightarrow> bool option" where
  "start_control s job =
     (if BatchJob.status job = Job_idle \<or> BatchJob.status job = Job_paused
      then Some (activeJobId s \<noteq> None \<and> activeJobId s \<noteq> Some (BatchJob.id job))
      else None)"

definition click_start :: "int \<Rightarrow> BatchJob \<Rightarrow> flight list \<Rightarrow> dashboard \<Rightarrow> dashboard run" where
  "click_start now job script s =
     (if start_control s job = Some False then startJob now (BatchJob.id job) script s
      else Finished s)"

subsection \<open>Example states\<close>

text \<open>
  Two jobs, of three files and of one file, created one after the other; \<open>state_of\<close>
  reads the state out of a run, and \<open>job_view\<close> the statuses and progress values of a job
  and of its files.
\<close>

definition job_A :: jsstring where "job_A = js ''job_A''"
definition job_B :: jsstring where "job_B = js ''job_B''"

definition three_files :: "DomFile list" where
  "three_files =
     [\<lparr>dom_name = js ''1.dcm'', dom_size = 10\<rparr>, \<lparr>dom_name = js ''2.dcm'', dom_size = 20\<rparr>,
      \<lparr>dom_name = js ''3.dcm'', dom_size = 30\<rparr>]"

definition initial_dashboard :: dashboard where
  "initial_dashboard = \<lparr>jobs = [], activeJobId = None, processingController = None\<rparr>"

definition two_jobs :: dashboard where
  "two_jobs =
     createNewJob job_B (js ''Batch Job B'') remove_options [\<lparr>dom_name = js ''b.dcm'', dom_size = 5\<rparr>]
       (createNewJob job_A (js ''Batch Job A'') remove_options three_files initial_dashboard)"

definition state_of :: "dashboard run \<Rightarrow> dashboard" where
  "state_of r = (case r of Finished s \<Rightarrow> s | Pending s \<Rightarrow> s)"

definition job_view ::
  "jsstring \<Rightarrow> dashboard \<Rightarrow> (job_status \<times> jsnumber \<times> (file_status \<times> nat) list) list" where
  "job_view jobId s =
     map (\<lambda>j. (BatchJob.status j, BatchJob.progress j,
                map (\<lambda>f. (BatchFile.status f, BatchFile.progress f)) (files j)))
         (filter (\<lambda>j. BatchJob.id j = jobId) (jobs s))"

text \<open>
  Job A started and suspended in its first request; suspended in its second request after
  the first was answered; and after \<open>pauseJob\<close> was called during the second request.
\<close>

definition running_A :: dashboard where
  "running_A = state_of (startJob 0 job_A [] two_jobs)"

definition second_in_flight :: dashboard where
  "second_in_flight =
     state_of (startJob 0 job_A [(2, Responded (Response_ok example_metadata 7))] two_jobs)"

definition pause_script :: "flight list" where
  "pause_script =
     [(2, Responded (Response_ok example_metadata 7)), (3, Interrupted_by_pause job_A)]"

definition after_pause :: dashboard where
  "after_pause = state_of (startJob 0 job_A pause_script two_jobs)"

subsection \<open>Predicates on the state\<close>

text \<open>
  While the request of a file is under way, every file of the running job that carries
  the id of that file is in the status \<open>processing\<close>: the loop has just put it there, and
  the interval ticks keep the status.
\<close>

definition in_flight :: "jsstring \<Rightarrow> jsstring \<Rightarrow> dashboard \<Rightarrow> bool" where
  "in_flight jobId fileId s =
     list_all (\<lambda>j. BatchJob.id j = jobId \<longrightarrow>
                 list_all (\<lambda>f. BatchFile.id f = fileId \<longrightarrow> BatchFile.status f = File_processing)
                   (files j))
       (jobs s)"

text \<open>
  While a call of \<open>startJob\<close> for a job is suspended and has not been paused: its
  controller is not aborted, the job is the active one, and its status is \<open>running\<close>.
\<close>

definition running_inv :: "jsstring \<Rightarrow> dashboard \<Rightarrow> bool" where
  "running_inv a s =
     (processingController s = Some False \<and> activeJobId s = Some a \<and>
      list_all (\<lambda>j. BatchJob.id j = a \<longrightarrow> BatchJob.status j = Job_running) (jobs s))"

text \<open>Every job of the given id shows the given progress.\<close>

definition shows_progress :: "jsstring \<Rightarrow> jsnumber \<Rightarrow> dashboard \<Rightarrow> bool" where
  "shows_progress a p s =
     list_all (\<lambda>j. BatchJob.id j = a \<longrightarrow> BatchJob.progress j = p) (jobs s)"

section \<open>Properties of the anonymization engine\<close>

subsection \<open>Properties of the encoder\<close>

lemma b64_alphabet_length: "length b64_alphabet = 64"
  by (simp add: b64_alphabet_def js_def)

lemma b64_alphabet_distinct: "distinct b64_alphabet"
  by (simp add: b64_alphabet_def js_def)

lemma b64_pad_notin: "61 \<notin> set b64_alphabet"
  by (simp add: b64_alphabet_def js_def)

lemma b64_char_inj: "b64_char m = b64_char n \<longleftrightarrow> m mod 64 = n mod 64"
  unfolding b64_char_def
  by (simp add: nth_eq_iff_index_eq b64_alphabet_distinct b64_alphabet_length)

lemma b64_char_not_pad: "b64_char n \<noteq> 61"
proof -
  have "b64_char n \<in> set b64_alphabet"
    unfolding b64_char_def by (rule nth_mem) (simp add: b64_alphabet_length)
  with b64_pad_notin show ?thesis by metis
qed

lemma b64_length: "length (b64_encode xs) = 4 * ((length xs + 2) div 3)"
proof (induction xs rule: b64_encode.induct)
  case (4 a b c rest)
  have "(length (a # b # c # rest) + 2) div 3 = Suc ((length rest + 2) div 3)" by simp
  with 4 show ?case by simp
qed simp_all

lemma b64_append:
  "length xs mod 3 = 0 \<Longrightarrow> b64_encode (xs @ ys) = b64_encode xs @ b64_encode ys"
proof (induction xs rule: b64_encode.induct)
  case (4 a b c rest)
  then show ?case by simp
qed simp_all

lemma b64_take: "take 12 (b64_encode xs) = b64_encode (take 9 xs)"
proof (cases "9 \<le> length xs")
  case True
  have "b64_encode xs = b64_encode (take 9 xs @ drop 9 xs)" by simp
  also have "\<dots> = b64_encode (take 9 xs) @ b64_encode (drop 9 xs)"
    using True by (intro b64_append) simp
  finally show ?thesis using True by (simp add: b64_length)
next
  case False
  then show ?thesis by (simp add: b64_length)
qed

lemma combine_digits:
  fixes x :: nat
  assumes "x < k" "x' < k" "h * k + x = h' * k + x'"
  shows "h = h' \<and> x = x'"
proof -
  have "(h * k + x) div k = h" using assms(1) by simp
  moreover have "(h' * k + x') div k = h'" using assms(2) by simp
  ultimately have "h = h'" using assms(3) by metis
  with assms(3) show ?thesis by simp
qed

lemma divmod_eq: "a div k = a' div k \<Longrightarrow> a mod k = a' mod k \<Longrightarrow> a = (a'::nat)"
  by (metis div_mult_mod_eq)

lemma sextet1: "a < 256 \<Longrightarrow> (a div 4) mod 64 = (a div 4 :: nat)"
  by simp

lemma sextet2: "b < 256 \<Longrightarrow> ((a mod 4) * 16 + b div 16) mod 64 = ((a mod 4) * 16 + b div 16 :: nat)"
proof -
  assume "b < 256"
  then have "b div 16 < 16" by simp
  moreover have "a mod 4 < 4" by simp
  ultimately have "(a mod 4) * 16 + b div 16 < 64" by arith
  then show ?thesis by simp
qed

lemma sextet3: "c < 256 \<Longrightarrow> ((b mod 16) * 4 + c div 64) mod 64 = ((b mod 16) * 4 + c div 64 :: nat)"
proof -
  assume "c < 256"
  then have "c div 64 < 4" by simp
  moreover have "b mod 16 < 16" by simp
  ultimately have "(b mod 16) * 4 + c div 64 < 64" by arith
  then show ?thesis by simp
qed

lemma first_byte:
  assumes "a < 256" "a' < 256" "b < 256" "b' < 256"
    and "b64_char (a div 4) = b64_char (a' div 4)"
    and "b64_char ((a mod 4) * 16 + b div 16) = b64_char ((a' mod 4) * 16 + b' div 16)"
  shows "a = a' \<and> b div 16 = b' div 16"
proof -
  from assms have d: "a div 4 = a' div 4" by (simp add: b64_char_inj sextet1)
  from assms have "(a mod 4) * 16 + b div 16 = (a' mod 4) * 16 + b' div 16"
    by (simp add: b64_char_inj sextet2)
  moreover from assms have "b div 16 < 16" "b' div 16 < 16" by simp_all
  ultimately have "a mod 4 = a' mod 4 \<and> b div 16 = b' div 16" by (rule combine_digits[rotated 2])
  with d show ?thesis using divmod_eq by blast
qed

lemma second_byte:
  assumes "b < 256" "b' < 256" "c < 256" "c' < 256" "b div 16 = b' div 16"
    and "b64_char ((b mod 16) * 4 + c div 64) = b64_char ((b' mod 16) * 4 + c' div 64)"
  shows "b = b' \<and> c div 64 = c' div 64"
proof -
  from assms have "(b mod 16) * 4 + c div 64 = (b' mod 16) * 4 + c' div 64"
    by (simp add: b64_char_inj sextet3)
  moreover from assms have "c div 64 < 4" "c' div 64 < 4" by simp_all
  ultimately have "b mod 16 = b' mod 16 \<and> c div 64 = c' div 64" by (rule combine_digits[rotated 2])
  with assms(5) show ?thesis using divmod_eq by blast
qed

lemma third_byte:
  assumes "c div 64 = c' div 64" and "b64_char (c mod 64) = b64_char (c' mod 64)"
  shows "c = (c'::nat)"
proof -
  from assms(2) have "c mod 64 = c' mod 64" by (simp add: b64_char_inj)
  with assms(1) show ?thesis by (rule divmod_eq)
qed

lemma b64_inj:
  "latin1 xs \<Longrightarrow> latin1 ys \<Longrightarrow> b64_encode xs = b64_encode ys \<Longrightarrow> xs = ys"
proof (induction xs arbitrary: ys rule: b64_encode.induct)
  case 1
  then show ?case by (cases ys rule: b64_encode.cases) simp_all
next
  case (2 a)
  show ?case
  proof (cases ys rule: b64_encode.cases)
    case (2 a')
    with "2.prems" have "a < 256" "a' < 256" "b64_char (a div 4) = b64_char (a' div 4)"
      "b64_char ((a mod 4) * 16 + 0 div 16) = b64_char ((a' mod 4) * 16 + 0 div 16)"
      by (simp_all add: latin1_def)
    then have "a = a'" using first_byte[of a a' 0 0] by simp
    with 2 show ?thesis by simp
  qed (use "2.prems" in \<open>simp_all add: b64_char_not_pad\<close>)
next
  case (3 a b)
  show ?case
  proof (cases ys rule: b64_encode.cases)
    case (3 a' b')
    with "3.prems" have lt: "a < 256" "a' < 256" "b < 256" "b' < 256"
      and e1: "b64_char (a div 4) = b64_char (a' div 4)"
      and e2: "b64_char ((a mod 4) * 16 + b div 16) = b64_char ((a' mod 4) * 16 + b' div 16)"
      and e3: "b64_char ((b mod 16) * 4 + 0 div 64) = b64_char ((b' mod 16) * 4 + 0 div 64)"
      by (simp_all add: latin1_def)
    from first_byte[OF lt e1 e2] have a: "a = a'" and bd: "b div 16 = b' div 16" by simp_all
    from second_byte[OF lt(3,4) _ _ bd e3] have "b = b'" by simp
    with a 3 show ?thesis by simp
  qed (use "3.prems" in \<open>simp_all add: b64_char_not_pad\<close>)
next
  case (4 a b c rest)
  show ?case
  proof (cases ys rule: b64_encode.cases)
    case (4 a' b' c' rest')
    with "4.prems" have lt: "a < 256" "a' < 256" "b < 256" "b' < 256" "c < 256" "c' < 256"
      and l: "latin1 rest" "latin1 rest'"
      and e1: "b64_char (a div 4) = b64_char (a' div 4)"
      and e2: "b64_char ((a mod 4) * 16 + b div 16) = b64_char ((a' mod 4) * 16 + b' div 16)"
      and e3: "b64_char ((b mod 16) * 4 + c div 64) = b64_char ((b' mod 16) * 4 + c' div 64)"
      and e4: "b64_char (c mod 64) = b64_char (c' mod 64)"
      and r: "b64_encode rest = b64_encode rest'"
      by (simp_all add: latin1_def)
    from first_byte[OF lt(1-4) e1 e2] have a: "a = a'" and bd: "b div 16 = b' div 16" by simp_all
    from second_byte[OF lt(3-6) bd e3] have b: "b = b'" and cd: "c div 64 = c' div 64" by simp_all
    from third_byte[OF cd e4] have c: "c = c'" .
    from "4.IH"[OF l r] a b c 4 show ?thesis by simp
  qed (use "4.prems" in \<open>simp_all add: b64_char_not_pad\<close>)
qed

lemma latin1_append: "latin1 (xs @ ys) \<longleftrightarrow> latin1 xs \<and> latin1 ys"
  by (simp add: latin1_def)

lemma latin1_take: "latin1 xs \<Longrightarrow> latin1 (take n xs)"
  unfolding latin1_def list_all_iff by (auto dest: in_set_takeD)

lemma latin1_default_salt: "latin1 (js ''default_salt'')"
  by (simp add: latin1_def js_def)

lemma or_default_latin1:
  "(\<And>s. salt = Some s \<Longrightarrow> latin1 s) \<Longrightarrow> latin1 (or_default salt (js ''default_salt''))"
  by (cases salt) (simp_all add: or_default_def latin1_default_salt)

lemma generatePseudonym_closed_form:
  "generatePseudonym v salt =
     (if latin1 (v @ or_default salt (js ''default_salt''))
      then Inr (js ''anon_'' @ b64_encode (take 9 (v @ or_default salt (js ''default_salt''))))
      else Inl InvalidCharacterError)"
  by (simp add: generatePseudonym_def btoa_def Let_def b64_take)

lemma take9_append: "take 9 (v @ s) = take 9 (v @ t) \<longleftrightarrow> take (9 - length v) s = take (9 - length v) t"
  by simp

text \<open>
  C10. An explicitly supplied empty salt, an absent salt and the salt
  \<open>"default_salt"\<close> give the same result for every value: the fallback \<open>||\<close> treats
  the empty string as absent. This covers the values on which \<open>btoa\<close> raises as well:
  the three calls then raise alike.
\<close>

theorem generatePseudonym_empty_salt_is_default:
  "generatePseudonym v (Some []) = generatePseudonym v None \<and>
   generatePseudonym v None = generatePseudonym v (Some (js ''default_salt''))"
  by (simp add: generatePseudonym_def or_default_def js_def)

text \<open>
  How far the salt reaches. The source appends the salt to the value and keeps the first
  twelve characters of the Base64 text, which encode the first nine code units of value
  followed by salt. For Latin-1 inputs two salts therefore give the same pseudonym exactly
  when the salts in force (the supplied salt, or \<open>"default_salt"\<close> when it is absent or
  empty) agree on their first \<open>9 - length value\<close> code units.
\<close>

lemma generatePseudonym_salt_prefix:
  assumes "latin1 v"
    and "latin1 (or_default s1 (js ''default_salt''))"
    and "latin1 (or_default s2 (js ''default_salt''))"
  shows "generatePseudonym v s1 =
           Inr (js ''anon_'' @ b64_encode (take 9 (v @ or_default s1 (js ''default_salt'')))) \<and>
         (generatePseudonym v s1 = generatePseudonym v s2 \<longleftrightarrow>
            take (9 - length v) (or_default s1 (js ''default_salt'')) =
            take (9 - length v) (or_default s2 (js ''default_salt'')))"
proof -
  let ?a1 = "or_default s1 (js ''default_salt'')"
  let ?a2 = "or_default s2 (js ''default_salt'')"
  have g1: "generatePseudonym v s1 = Inr (js ''anon_'' @ b64_encode (take 9 (v @ ?a1)))"
    using assms by (simp add: generatePseudonym_closed_form latin1_append)
  have g2: "generatePseudonym v s2 = Inr (js ''anon_'' @ b64_encode (take 9 (v @ ?a2)))"
    using assms by (simp add: generatePseudonym_closed_form latin1_append)
  have l1: "latin1 (take 9 (v @ ?a1))" and l2: "latin1 (take 9 (v @ ?a2))"
    using assms by (simp_all add: latin1_take latin1_append)
  have "b64_encode (take 9 (v @ ?a1)) = b64_encode (take 9 (v @ ?a2)) \<longleftrightarrow>
        take 9 (v @ ?a1) = take 9 (v @ ?a2)"
    using b64_inj[OF l1 l2] by auto
  then have "generatePseudonym v s1 = generatePseudonym v s2 \<longleftrightarrow>
        take (9 - length v) ?a1 = take (9 - length v) ?a2"
    unfolding g1 g2 by (simp add: take9_append)
  with g1 show ?thesis by simp
qed

lemma generatePseudonym_salt_prefix_examples:
  "latin1 (js ''John Doe'') \<and>
   generatePseudonym (js ''John Doe'') (Some (js ''a'')) \<noteq>
   generatePseudonym (js ''John Doe'') (Some (js ''b'')) \<and>
   generatePseudonym (js ''John Doe'') (Some (js ''salt one'')) =
   generatePseudonym (js ''John Doe'') (Some (js ''salt two''))"
proof -
  have v: "latin1 (js ''John Doe'')" by (simp add: latin1_def js_def)
  have a: "latin1 (or_default (Some (js ''a'')) (js ''default_salt''))"
    and b: "latin1 (or_default (Some (js ''b'')) (js ''default_salt''))"
    and c: "latin1 (or_default (Some (js ''salt one'')) (js ''default_salt''))"
    and d: "latin1 (or_default (Some (js ''salt two'')) (js ''default_salt''))"
    by (simp_all add: latin1_def js_def or_default_def)
  from generatePseudonym_salt_prefix[OF v a b, THEN conjunct2]
  have "generatePseudonym (js ''John Doe'') (Some (js ''a'')) \<noteq>
        generatePseudonym (js ''John Doe'') (Some (js ''b''))"
    by (simp add: or_default_def js_def)
  moreover from generatePseudonym_salt_prefix[OF v c d, THEN conjunct2]
  have "generatePseudonym (js ''John Doe'') (Some (js ''salt one'')) =
        generatePseudonym (js ''John Doe'') (Some (js ''salt two''))"
    by (simp add: or_default_def js_def)
  ultimately show ?thesis using v by simp
qed

text \<open>
  The patient id that \<open>processDicomFile\<close> pseudonymizes has eleven code units, so no salt
  reaches its pseudonym.
\<close>

lemma patient_id_pseudonym_any_salt:
  assumes "latin1 (or_default salt (js ''default_salt''))"
  shows "generatePseudonym (js ''PATIENT_001'') salt = Inr (js ''anon_UEFUSUVOVF8w'')"
proof -
  have "latin1 (js ''PATIENT_001'')" by (simp add: latin1_def js_def)
  from generatePseudonym_salt_prefix[OF this assms assms, THEN conjunct1]
  show ?thesis by (simp add: js_def b64_char_def b64_alphabet_def)
qed

text \<open>
  C4 at a concrete input. The salts \<open>"a"\<close> and \<open>"b"\<close> differ, and the value
  \<open>"PATIENT_001"\<close> gets the pseudonym \<open>anon_UEFUSUVOVF8w\<close> under both: the code appends
  the salt, but the twelve characters kept by \<open>slice(0, 12)\<close> encode the first nine bytes
  of \<open>value + salt\<close>, all of which belong to the value. Repeated calls agree, as claimed;
  different salts do not give different pseudonyms.
\<close>

theorem generatePseudonym_salt_counterexample:
  "Some (js ''a'') \<noteq> Some (js ''b'') \<and>
   generatePseudonym (js ''PATIENT_001'') (Some (js ''a'')) = Inr (js ''anon_UEFUSUVOVF8w'') \<and>
   generatePseudonym (js ''PATIENT_001'') (Some (js ''b'')) = Inr (js ''anon_UEFUSUVOVF8w'')"
proof -
  have a: "latin1 (or_default (Some (js ''a'')) (js ''default_salt''))"
    and b: "latin1 (or_default (Some (js ''b'')) (js ''default_salt''))"
    by (simp_all add: latin1_def js_def or_default_def)
  have "js ''a'' \<noteq> js ''b''" by (simp add: js_def)
  with patient_id_pseudonym_any_salt[OF a] patient_id_pseudonym_any_salt[OF b]
  show ?thesis by simp
qed

subsection \<open>Properties of processDicomFile\<close>

lemma yes_not_no: "js ''YES'' \<noteq> js ''NO''"
  by (simp add: js_def)

lemma processDicomFile_metadata:
  assumes "ProcessingResult.metadata (processDicomFile h fname options) = Some md"
  shows "\<exists>pid pname. md = mockMetadata h fname options pid pname \<and>
           (if anonymize options
            then generatePseudonym (js ''PATIENT_001'') (anonymize_salt options) = Inr pid \<and>
                 generatePseudonym (js ''John Doe'') (anonymize_salt options) = Inr pname
            else pid = js ''PATIENT_001'' \<and> pname = js ''John Doe'')"
  using assms
  by (auto simp: processDicomFile_def failed_def split: sum.splits if_splits)

text \<open>
  C6. Every metadata record that \<open>processDicomFile\<close> produces, for any file name,
  options and host, has \<open>phi_removed = "YES"\<close> exactly when \<open>options.anonymize\<close> was set,
  has no PHI flags when it was set, and is urgent exactly when it carries an urgent reason.
\<close>

theorem processDicomFile_flags:
  assumes "ProcessingResult.metadata (processDicomFile h fname options) = Some md"
  shows "(phi_removed md = js ''YES'' \<longleftrightarrow> anonymize options) \<and>
         (anonymize options \<longrightarrow> phi_flags md = []) \<and>
         (urgent md \<longleftrightarrow> urgent_reasons md \<noteq> [])"
proof -
  from processDicomFile_metadata[OF assms] obtain pid pname
    where md: "md = mockMetadata h fname options pid pname" by blast
  show ?thesis unfolding md by (simp add: mockMetadata_def yes_not_no yes_not_no[symmetric])
qed

lemma remove_options_result:
  "ProcessingResult.metadata (processDicomFile example_host (js ''head_ct.dcm'') remove_options) =
     Some (mockMetadata example_host (js ''head_ct.dcm'') remove_options
             (js ''anon_UEFUSUVOVF8w'') (js ''anon_Sm9obiBEb2Vk''))"
  by (simp add: processDicomFile_def remove_options_def generatePseudonym_closed_form
      or_default_def latin1_def js_def b64_char_def b64_alphabet_def)

theorem processDicomFile_flags_witness:
  "\<exists>md. ProcessingResult.metadata (processDicomFile example_host (js ''head_ct.dcm'') remove_options) = Some md \<and>
     phi_removed md = js ''YES'' \<and> phi_flags md = [] \<and> (urgent md \<longleftrightarrow> urgent_reasons md \<noteq> [])"
proof -
  have a: "anonymize remove_options" by (simp add: remove_options_def)
  from processDicomFile_flags[OF remove_options_result] a remove_options_result
  show ?thesis by blast
qed

text \<open>
  C5 at a concrete input. With \<open>anonymize\<close> set and the mode \<open>remove\<close>, which the
  settings screen describes as replacing with \<open>"REDACTED"\<close>, the patient id and the patient
  age are both configured fields (the built-in list is in force), and the output holds an
  \<open>anon_\<close> pseudonym in the one and the extracted age in the other: neither is the marker,
  and no single marker fills both.
\<close>

theorem remove_mode_counterexample:
  "anonymize remove_options \<and> anonymize_mode remove_options = Remove \<and>
   js ''patient_id'' \<in> set (tagsToUse remove_options) \<and>
   js ''patient_age'' \<in> set (tagsToUse remove_options) \<and>
   map_option patient_id (ProcessingResult.metadata (processDicomFile example_host (js ''head_ct.dcm'') remove_options))
     = Some (js ''anon_UEFUSUVOVF8w'') \<and>
   map_option patient_age (ProcessingResult.metadata (processDicomFile example_host (js ''head_ct.dcm'') remove_options))
     = Some (js ''45Y'') \<and>
   js ''anon_UEFUSUVOVF8w'' \<noteq> js ''45Y'' \<and>
   js ''anon_UEFUSUVOVF8w'' \<noteq> js ''REDACTED'' \<and> js ''45Y'' \<noteq> js ''REDACTED''"
  by (simp add: remove_options_result mockMetadata_def)
     (simp add: remove_options_def tagsToUse_def DEFAULT_ANONYMIZATION_TAGS_def js_def)

text \<open>
  What the mode \<open>remove\<close> does in general: \<open>processDicomFile\<close> never reads
  \<open>anonymize_mode\<close>, so with \<open>anonymize\<close> set and the mode \<open>remove\<close> it returns what it
  returns in the mode \<open>pseudonymize\<close>. In a record it produces, the patient id and the
  patient name hold the pseudonyms of \<open>"PATIENT_001"\<close> and \<open>"John Doe"\<close> under the salt and
  the patient age and sex hold the extracted values.
\<close>

lemma remove_mode_is_pseudonymize:
  assumes "anonymize options" and "anonymize_mode options = Remove"
    and "ProcessingResult.metadata (processDicomFile h fname options) = Some md"
  shows "processDicomFile h fname (options\<lparr>anonymize_mode := Pseudonymize\<rparr>) =
           processDicomFile h fname options \<and>
         generatePseudonym (js ''PATIENT_001'') (anonymize_salt options) = Inr (patient_id md) \<and>
         generatePseudonym (js ''John Doe'') (anonymize_salt options) = Inr (patient_name md) \<and>
         patient_age md = js ''45Y'' \<and> patient_sex md = js ''M'' \<and>
         phi_flags md = [] \<and> phi_removed md = js ''YES'' \<and>
         (\<forall>h' fname2 md'. ProcessingResult.metadata (processDicomFile h' fname2 options) = Some md' \<longrightarrow>
            patient_id md' = patient_id md \<and> patient_name md' = patient_name md)"
proof -
  from processDicomFile_metadata[OF assms(3)] assms(1) obtain pid pname
    where md: "md = mockMetadata h fname options pid pname"
      and pid: "generatePseudonym (js ''PATIENT_001'') (anonymize_salt options) = Inr pid"
      and pname: "generatePseudonym (js ''John Doe'') (anonymize_salt options) = Inr pname"
    by auto
  have same: "processDicomFile h fname (options\<lparr>anonymize_mode := Pseudonymize\<rparr>) =
           processDicomFile h fname options"
    by (simp add: processDicomFile_def mockMetadata_def split: sum.splits)
  have fields: "patient_id md = pid" "patient_name md = pname" "patient_age md = js ''45Y''"
    "patient_sex md = js ''M''" "phi_flags md = []" "phi_removed md = js ''YES''"
    unfolding md using assms(1) by (simp_all add: mockMetadata_def)
  have again: "patient_id md' = patient_id md \<and> patient_name md' = patient_name md"
    if "ProcessingResult.metadata (processDicomFile h' fname2 options) = Some md'" for h' fname2 md'
  proof -
    from processDicomFile_metadata[OF that] assms(1) obtain pid' pname'
      where md': "md' = mockMetadata h' fname2 options pid' pname'"
        and "generatePseudonym (js ''PATIENT_001'') (anonymize_salt options) = Inr pid'"
        and "generatePseudonym (js ''John Doe'') (anonymize_salt options) = Inr pname'"
      by auto
    with pid pname have "pid' = pid" "pname' = pname" by simp_all
    then show ?thesis unfolding md' md by (simp add: mockMetadata_def)
  qed
  from same pid pname fields again show ?thesis by simp
qed

lemma remove_mode_is_pseudonymize_example:
  "anonymize remove_options \<and> anonymize_mode remove_options = Remove \<and>
   processDicomFile example_host (js ''head_ct.dcm'') (remove_options\<lparr>anonymize_mode := Pseudonymize\<rparr>) =
     processDicomFile example_host (js ''head_ct.dcm'') remove_options \<and>
   generatePseudonym (js ''PATIENT_001'') (anonymize_salt remove_options) = Inr (js ''anon_UEFUSUVOVF8w'') \<and>
   generatePseudonym (js ''John Doe'') (anonymize_salt remove_options) = Inr (js ''anon_Sm9obiBEb2Vk'')"
proof -
  have a: "anonymize remove_options" and m: "anonymize_mode remove_options = Remove"
    by (simp_all add: remove_options_def)
  from remove_mode_is_pseudonymize[OF a m remove_options_result] a m
  show ?thesis by (simp add: mockMetadata_def)
qed

section \<open>Properties of the report aggregator\<close>

subsection \<open>Properties of generateSummary\<close>

lemma values_sum_append:
  "values_sum r = Some t \<Longrightarrow> values_sum (r @ [(k, Num n)]) = Some (t + n)"
proof (induction r arbitrary: t rule: values_sum.induct)
  case (2 k' m r)
  then obtain t' where "values_sum r = Some t'" and "t = m + t'" by auto
  with "2.IH"[of t'] show ?case by simp
qed simp_all

lemma values_sum_insert_index:
  "values_sum r = Some t \<Longrightarrow> values_sum (insert_index r k (Num n)) = Some (t + n)"
proof (induction r arbitrary: t rule: values_sum.induct)
  case (2 k' m r)
  then obtain t' where t': "values_sum r = Some t'" and t: "t = m + t'" by auto
  from "2.IH"[OF t'] t' t show ?case by simp
qed simp_all

lemma values_sum_replace_own:
  "values_sum r = Some t \<Longrightarrow> map_of r k = Some (Num m) \<Longrightarrow>
   values_sum (replace_own r k (Num (m + 1))) = Some (t + 1)"
proof (induction r arbitrary: t rule: values_sum.induct)
  case (2 k' n r)
  then obtain t' where t': "values_sum r = Some t'" and t: "t = n + t'" by auto
  show ?case
  proof (cases "k' = k")
    case True
    with "2.prems"(2) t' t show ?thesis by simp
  next
    case False
    with "2.prems"(2) have "map_of r k = Some (Num m)" by simp
    from "2.IH"[OF t' this] False t show ?thesis by simp
  qed
qed simp_all

lemma values_sum_map_of:
  "values_sum r = Some t \<Longrightarrow> map_of r k = Some v \<Longrightarrow> \<exists>m. v = Num m"
proof (induction r arbitrary: t rule: values_sum.induct)
  case (2 k' n r)
  then obtain t' where t': "values_sum r = Some t'" by auto
  show ?case
  proof (cases "k' = k")
    case True
    with "2.prems"(2) show ?thesis by auto
  next
    case False
    with "2.prems"(2) have "map_of r k = Some v" by simp
    from "2.IH"[OF t' this] show ?thesis .
  qed
qed simp_all

lemma values_sum_own_update:
  assumes "values_sum r = Some t"
  shows "values_sum (own_update r k (plus_one (js_or (case map_of r k of Some v \<Rightarrow> v | None \<Rightarrow> Undefined) (Num 0))))
           = Some (t + 1)"
proof (cases "map_of r k")
  case None
  then have "own_update r k (Num 1) = (if is_array_index k then insert_index r k (Num 1) else r @ [(k, Num 1)])"
    by (simp add: own_update_def)
  with None values_sum_insert_index[OF assms, of k 1] values_sum_append[OF assms, of k 1]
  show ?thesis by (simp add: js_or_def)
next
  case (Some v)
  with values_sum_map_of[OF assms] obtain m where v: "v = Num m" by blast
  have "plus_one (js_or (Num m) (Num 0)) = Num (m + 1)" by (simp add: js_or_def)
  with Some v values_sum_replace_own[OF assms, of k m] show ?thesis
    by (simp add: own_update_def)
qed

lemma values_sum_count_key:
  assumes "values_sum r = Some t" and "k \<notin> set object_prototype_names"
  shows "values_sum (count_key host_text r k) = Some (t + 1)"
proof -
  have p: "k \<noteq> js ''__proto__''"
    using assms(2) by (auto simp: object_prototype_names_def)
  have "get_prop host_text r k = (case map_of r k of Some v \<Rightarrow> v | None \<Rightarrow> Undefined)"
    using assms(2) by (simp add: get_prop_def split: option.splits)
  then show ?thesis
    using values_sum_own_update[OF assms(1), of k] p by (simp add: count_key_def set_prop_def)
qed

lemma count_file_fixed:
  "totalFiles (count_file host_text acc f) = totalFiles acc \<and>
   successfulFiles (count_file host_text acc f) = successfulFiles acc \<and>
   failedFiles (count_file host_text acc f) = failedFiles acc"
  by (simp add: count_file_def Let_def)

lemma foldl_count_file_fixed:
  "totalFiles (foldl (count_file host_text) acc fs) = totalFiles acc \<and>
   successfulFiles (foldl (count_file host_text) acc fs) = successfulFiles acc \<and>
   failedFiles (foldl (count_file host_text) acc fs) = failedFiles acc"
  by (induction fs arbitrary: acc) (simp_all add: count_file_fixed)

lemma foldl_count_file_sums:
  assumes "list_all plain_keys fs"
    and "values_sum (modalities acc) = Some a"
    and "values_sum (bodyParts acc) = Some b"
    and "values_sum (manufacturers acc) = Some c"
  shows "values_sum (modalities (foldl (count_file host_text) acc fs)) = Some (a + length fs) \<and>
         values_sum (bodyParts (foldl (count_file host_text) acc fs)) = Some (b + length fs) \<and>
         values_sum (manufacturers (foldl (count_file host_text) acc fs)) = Some (c + length fs)"
  using assms
proof (induction fs arbitrary: acc a b c)
  case Nil
  then show ?case by simp
next
  case (Cons f fs)
  from Cons.prems(1) have pk: "plain_keys f" and rest: "list_all plain_keys fs" by simp_all
  let ?acc = "count_file host_text acc f"
  have m: "values_sum (modalities ?acc) = Some (a + 1)"
    using values_sum_count_key[OF Cons.prems(2)] pk by (simp add: count_file_def Let_def plain_keys_def)
  have bp: "values_sum (bodyParts ?acc) = Some (b + 1)"
    using values_sum_count_key[OF Cons.prems(3)] pk by (simp add: count_file_def Let_def plain_keys_def)
  have mf: "values_sum (manufacturers ?acc) = Some (c + 1)"
    using values_sum_count_key[OF Cons.prems(4)] pk by (simp add: count_file_def Let_def plain_keys_def)
  from Cons.IH[OF rest m bp mf] show ?case by simp
qed

lemma success_or_error:
  "length (filter (\<lambda>f. ProcessedFileData.status f = Success) fs) + length (filter (\<lambda>f. ProcessedFileData.status f = Error) fs) = length fs"
proof (induction fs)
  case (Cons f fs)
  then show ?case by (cases "ProcessedFileData.status f") simp_all
qed simp

text \<open>
  C7 at a concrete input: one successful outcome whose modality is the
  string \<open>"__proto__"\<close>. Reading \<open>modalities["__proto__"]\<close> yields the prototype object,
  \<open>+ 1\<close> makes a string of it, and the assignment of a string to \<open>__proto__\<close> is ignored:
  the map stays empty, its values sum to 0, and \<open>successfulFiles\<close> is 1. With the
  modality \<open>"constructor"\<close> the map gets a string value, and its values have no sum.
\<close>

theorem generateSummary_sum_counterexample:
  "successfulFiles (generateSummary example_host_text [example_file (js ''a.dcm'') (js ''__proto__'')]) = 1 \<and>
   values_sum (modalities (generateSummary example_host_text [example_file (js ''a.dcm'') (js ''__proto__'')]))
     = Some 0 \<and>
   successfulFiles (generateSummary example_host_text [example_file (js ''a.dcm'') (js ''constructor'')]) = 1 \<and>
   values_sum (modalities (generateSummary example_host_text [example_file (js ''a.dcm'') (js ''constructor'')]))
     = None"
  by (simp add: generateSummary_def example_file_def count_file_def count_key_def set_prop_def
      get_prop_def js_or_def object_prototype_names_def example_metadata_def own_update_def
      is_array_index_def js_def)

text \<open>
  Where the counting works: for every list of file outcomes
  \<open>successfulFiles + failedFiles = totalFiles\<close>, and when no successful outcome has a
  modality, body part or manufacturer that names a property of \<open>Object.prototype\<close>, every
  value of the three frequency maps is a number and the values of each map sum to
  \<open>successfulFiles\<close>.
\<close>

lemma generateSummary_consistent:
  assumes "list_all plain_keys (filter (\<lambda>f. ProcessedFileData.status f = Success) outcomes)"
  shows "successfulFiles (generateSummary host_text outcomes) + failedFiles (generateSummary host_text outcomes)
           = totalFiles (generateSummary host_text outcomes) \<and>
         values_sum (modalities (generateSummary host_text outcomes))
           = Some (successfulFiles (generateSummary host_text outcomes)) \<and>
         values_sum (bodyParts (generateSummary host_text outcomes))
           = Some (successfulFiles (generateSummary host_text outcomes)) \<and>
         values_sum (manufacturers (generateSummary host_text outcomes))
           = Some (successfulFiles (generateSummary host_text outcomes))"
proof -
  let ?ok = "filter (\<lambda>f. ProcessedFileData.status f = Success) outcomes"
  let ?init = "\<lparr>totalFiles = length outcomes,
            successfulFiles = length ?ok,
            failedFiles = length (filter (\<lambda>f. ProcessedFileData.status f = Error) outcomes),
            totalProcessingTime = foldl (\<lambda>sum f. sum + ProcessedFileData.processingTime f) 0 outcomes,
            urgentStudies = 0, phiDetected = 0, anonymizedFiles = 0,
            modalities = [], bodyParts = [], manufacturers = []\<rparr>"
  have g: "generateSummary host_text outcomes = foldl (count_file host_text) ?init ?ok"
    by (simp add: generateSummary_def Let_def)
  have fixed: "totalFiles (generateSummary host_text outcomes) = length outcomes"
    "successfulFiles (generateSummary host_text outcomes) = length ?ok"
    "failedFiles (generateSummary host_text outcomes) = length (filter (\<lambda>f. ProcessedFileData.status f = Error) outcomes)"
    unfolding g using foldl_count_file_fixed[of host_text ?init ?ok] by simp_all
  have sums: "values_sum (modalities (generateSummary host_text outcomes)) = Some (length ?ok)"
    "values_sum (bodyParts (generateSummary host_text outcomes)) = Some (length ?ok)"
    "values_sum (manufacturers (generateSummary host_text outcomes)) = Some (length ?ok)"
    unfolding g using foldl_count_file_sums[OF assms, of ?init 0 0 0 host_text] by simp_all
  show ?thesis unfolding fixed sums using success_or_error[of outcomes] by simp
qed

lemma generateSummary_consistent_example:
  "values_sum (modalities (generateSummary example_host_text
      [example_file (js ''a.dcm'') (js ''CT''), example_file (js ''b.dcm'') (js ''MR''),
       (example_file (js ''c.dcm'') (js ''CT''))\<lparr>ProcessedFileData.status := Error\<rparr>])) = Some 2 \<and>
   successfulFiles (generateSummary example_host_text
      [example_file (js ''a.dcm'') (js ''CT''), example_file (js ''b.dcm'') (js ''MR''),
       (example_file (js ''c.dcm'') (js ''CT''))\<lparr>ProcessedFileData.status := Error\<rparr>]) = 2 \<and>
   failedFiles (generateSummary example_host_text
      [example_file (js ''a.dcm'') (js ''CT''), example_file (js ''b.dcm'') (js ''MR''),
       (example_file (js ''c.dcm'') (js ''CT''))\<lparr>ProcessedFileData.status := Error\<rparr>]) = 1"
proof -
  let ?outcomes = "[example_file (js ''a.dcm'') (js ''CT''), example_file (js ''b.dcm'') (js ''MR''),
       (example_file (js ''c.dcm'') (js ''CT''))\<lparr>ProcessedFileData.status := Error\<rparr>]"
  have h: "list_all plain_keys (filter (\<lambda>f. ProcessedFileData.status f = Success) ?outcomes)"
    by (simp add: example_file_def plain_keys_def example_metadata_def
        object_prototype_names_def js_def)
  have s: "successfulFiles (generateSummary example_host_text ?outcomes) = 2"
    and f: "failedFiles (generateSummary example_host_text ?outcomes) = 1"
    by (simp_all add: generateSummary_def example_file_def count_file_def)
  from generateSummary_consistent[OF h, of example_host_text] s f show ?thesis by simp
qed

section \<open>Properties of the delimited-text report\<close>

subsection \<open>Properties of generateCSVReport\<close>

lemma csv_scan_escaped:
  "csv_scan In_quotes fld row done (escape_quotes cell @ 34 # rest) =
   csv_scan After_quote (rev cell @ fld) row done rest"
proof (induction cell arbitrary: fld)
  case Nil
  then show ?case by (simp add: escape_quotes_def)
next
  case (Cons c cell)
  have e: "escape_quotes (c # cell) = (if c = 34 then [34, 34] else [c]) @ escape_quotes cell"
    by (simp add: escape_quotes_def)
  show ?case unfolding e using Cons.IH by (cases "c = 34") simp_all
qed

lemma csv_scan_cell:
  "csv_scan Field_start fld row done (quote_cell cell @ rest) =
   csv_scan After_quote (rev cell) row done rest"
  by (simp add: quote_cell_def csv_scan_escaped)

lemma csv_scan_row:
  "cells \<noteq> [] \<Longrightarrow>
   csv_scan Field_start fld row done (join (js '','') (map quote_cell cells) @ rest) =
   csv_scan After_quote (rev (last cells)) (rev (butlast cells) @ row) done rest"
proof (induction cells arbitrary: fld row)
  case Nil
  then show ?case by simp
next
  case (Cons c cells)
  show ?case
  proof (cases cells)
    case Nil
    then show ?thesis by (simp add: csv_scan_cell)
  next
    case (Cons d ds)
    have "csv_scan Field_start fld row done (join (js '','') (map quote_cell (c # cells)) @ rest) =
          csv_scan After_quote (rev c) row done (44 # join (js '','') (map quote_cell cells) @ rest)"
      unfolding Cons by (simp add: csv_scan_cell js_def)
    also have "\<dots> = csv_scan Field_start [] (c # row) done (join (js '','') (map quote_cell cells) @ rest)"
      by simp
    also have "\<dots> = csv_scan After_quote (rev (last cells)) (rev (butlast cells) @ c # row) done rest"
      using Cons.IH[of "[]" "c # row"] Cons by simp
    finally show ?thesis using Cons by simp
  qed
qed

lemma csv_scan_rows:
  "rows' \<noteq> [] \<Longrightarrow> list_all (\<lambda>r. r \<noteq> []) rows' \<Longrightarrow>
   csv_scan Field_start fld [] done (join [10] (map render_row rows')) = Some (rev done @ rows')"
proof (induction rows' arbitrary: fld "done")
  case Nil
  then show ?case by simp
next
  case (Cons r rs)
  from Cons.prems have r: "r \<noteq> []" by simp
  show ?case
  proof (cases rs)
    case Nil
    have "csv_scan Field_start fld [] done (join [10] (map render_row [r])) =
          csv_scan After_quote (rev (last r)) (rev (butlast r)) done []"
      using csv_scan_row[OF r, of fld "[]" "done" "[]"] by (simp add: render_row_def)
    also have "\<dots> = Some (rev done @ [butlast r @ [last r]])" by simp
    finally show ?thesis using Nil r by simp
  next
    case (Cons s ss)
    have "csv_scan Field_start fld [] done (join [10] (map render_row (r # rs))) =
          csv_scan After_quote (rev (last r)) (rev (butlast r)) done (10 # join [10] (map render_row rs))"
      unfolding Cons using csv_scan_row[OF r, of fld "[]" "done"] by (simp add: render_row_def)
    also have "\<dots> = csv_scan Field_start [] [] (r # done) (join [10] (map render_row rs))"
      using r by (simp add: snoc_eq_iff_butlast)
    also have "\<dots> = Some (rev (r # done) @ rs)"
      using Cons.IH[of "[]" "r # done"] Cons.prems Cons by simp
    finally show ?thesis by simp
  qed
qed

lemma csv_row_length: "length (csv_row large_text file) = 16"
  by (simp add: csv_row_def Let_def)

lemma csv_headers_length: "length csv_headers = 16"
  by (simp add: csv_headers_def)

lemma read_digits_snoc: "read_digits (ds @ [c]) = 10 * read_digits ds + (int c - 48)"
  by (simp add: read_digits_def)

lemma read_digits_digits: "read_digits (digits n) = int n"
proof (induction n rule: digits.induct)
  case (1 n)
  show ?case
  proof (cases "n < 10")
    case True
    then show ?thesis by (simp add: digits.simps[of n] read_digits_def)
  next
    case False
    with 1 have "read_digits (digits (n div 10)) = int (n div 10)" by simp
    moreover have "10 * int (n div 10) + int (n mod 10) = int n"
      by (simp add: zdiv_int zmod_int)
    ultimately show ?thesis using False by (simp add: digits.simps[of n] read_digits_snoc)
  qed
qed

lemma digits_first: "\<exists>c cs. digits n = c # cs \<and> 48 \<le> c"
proof (induction n rule: digits.induct)
  case (1 n)
  show ?case
  proof (cases "n < 10")
    case True
    then show ?thesis by (simp add: digits.simps[of n])
  next
    case False
    with 1 obtain c cs where "digits (n div 10) = c # cs" and "48 \<le> c" by blast
    with False show ?thesis by (simp add: digits.simps[of n])
  qed
qed

lemma read_number_toString:
  assumes "\<bar>t\<bar> \<le> 2 ^ 53"
  shows "read_number (number_toString large_text t) = t"
proof (cases "t < 0")
  case True
  then show ?thesis
    using assms by (simp add: number_toString_def read_number_def read_digits_digits)
next
  case False
  from digits_first[of "nat t"] obtain c cs where d: "digits (nat t) = c # cs" and c: "48 \<le> c"
    by blast
  have "read_digits (c # cs) = int (nat t)" using read_digits_digits[of "nat t"] d by simp
  with False c d assms show ?thesis by (simp add: number_toString_def read_number_def)
qed

lemma csv_rows_by_status:
  "csv_headers # map (csv_row large_text) fs =
     [js ''File Name'', js ''Status'', js ''Processing Time (ms)'', js ''Patient ID'',
          js ''Patient Name'', js ''Age'', js ''Sex'', js ''Modality'', js ''Body Part'',
          js ''Study Description'', js ''Study Date'', js ''Manufacturer'', js ''Model'',
          js ''Urgent'', js ''PHI Removed'', js ''PHI Flags''] #
     map (\<lambda>f. if ProcessedFileData.status f = Success
               then [fileName f, js ''success'',
                     number_toString large_text (ProcessedFileData.processingTime f),
                     patient_id (ProcessedFileData.metadata f),
                     patient_name (ProcessedFileData.metadata f),
                     patient_age (ProcessedFileData.metadata f),
                     patient_sex (ProcessedFileData.metadata f),
                     modality (ProcessedFileData.metadata f),
                     body_part_examined (ProcessedFileData.metadata f),
                     study_description (ProcessedFileData.metadata f),
                     study_date_time (ProcessedFileData.metadata f),
                     manufacturer (ProcessedFileData.metadata f),
                     model (ProcessedFileData.metadata f),
                     if urgent (ProcessedFileData.metadata f) then js ''YES'' else js ''NO'',
                     phi_removed (ProcessedFileData.metadata f),
                     join (js '';'') (phi_flags (ProcessedFileData.metadata f))]
               else [fileName f, js ''error'',
                     number_toString large_text (ProcessedFileData.processingTime f),
                     [], [], [], [], [], [], [], [], [], [], [], [], []]) fs"
proof -
  have "csv_row large_text f = (\<lambda>f. if ProcessedFileData.status f = Success
               then [fileName f, js ''success'',
                     number_toString large_text (ProcessedFileData.processingTime f),
                     patient_id (ProcessedFileData.metadata f),
                     patient_name (ProcessedFileData.metadata f),
                     patient_age (ProcessedFileData.metadata f),
                     patient_sex (ProcessedFileData.metadata f),
                     modality (ProcessedFileData.metadata f),
                     body_part_examined (ProcessedFileData.metadata f),
                     study_description (ProcessedFileData.metadata f),
                     study_date_time (ProcessedFileData.metadata f),
                     manufacturer (ProcessedFileData.metadata f),
                     model (ProcessedFileData.metadata f),
                     if urgent (ProcessedFileData.metadata f) then js ''YES'' else js ''NO'',
                     phi_removed (ProcessedFileData.metadata f),
                     join (js '';'') (phi_flags (ProcessedFileData.metadata f))]
               else [fileName f, js ''error'',
                     number_toString large_text (ProcessedFileData.processingTime f),
                     [], [], [], [], [], [], [], [], [], [], [], [], []]) f" for f
    by (cases "ProcessedFileData.status f") (simp_all add: csv_row_def Let_def status_text_def)
  then show ?thesis by (simp add: csv_headers_def)
qed

lemma generateCSVReport_rows:
  "csv_parse (generateCSVReport large_text data) = Some (csv_headers # map (csv_row large_text) (ReportData.files data)) \<and>
   generateCSVReport large_text data =
     join [10] (map (\<lambda>row. join [44] (map (\<lambda>cell. [34] @ escape_quotes cell @ [34]) row))
                  (csv_headers # map (csv_row large_text) (ReportData.files data)))"
proof -
  let ?rows = "csv_headers # map (csv_row large_text) (ReportData.files data)"
  have g: "generateCSVReport large_text data = join [10] (map render_row ?rows)"
    by (simp add: generateCSVReport_def render_row_def[abs_def] Let_def)
  have ne: "list_all (\<lambda>r. r \<noteq> []) ?rows"
  proof -
    have "csv_headers \<noteq> []" using csv_headers_length by auto
    moreover have "csv_row large_text f \<noteq> []" for f
      using csv_row_length[of large_text f] by auto
    ultimately show ?thesis by (simp add: list_all_iff)
  qed
  have "csv_parse (generateCSVReport large_text data) = Some ?rows"
    unfolding g csv_parse_def using csv_scan_rows[of ?rows "[]" "[]"] ne by simp
  moreover have "generateCSVReport large_text data =
     join [10] (map (\<lambda>row. join [44] (map (\<lambda>cell. [34] @ escape_quotes cell @ [34]) row)) ?rows)"
    by (simp add: generateCSVReport_def Let_def quote_cell_def[abs_def] js_def)
  ultimately show ?thesis by simp
qed

text \<open>
  C8. For every report over N file outcomes, reading the text of \<open>generateCSVReport\<close> back
  gives exactly N + 1 rows of sixteen fields: the header row with the sixteen column names,
  and one row per outcome, in order. The row of a successful outcome holds its file name,
  \<open>success\<close>, the decimal text of its processing time, and the patient id, patient name,
  age, sex, modality, body part, study description, study date, manufacturer and model of
  its metadata, \<open>YES\<close> or \<open>NO\<close> for its urgency, its \<open>phi_removed\<close>, and its PHI flags
  joined by semicolons, each equal to the source value, whatever commas, quotes or line
  feeds it contains. The row of a failed outcome, which stands for no extracted record,
  holds its file name, \<open>error\<close> and its processing time, and thirteen empty fields. The
  text itself is these rows joined by line feeds, the fields of a row joined by commas,
  each field between two quotes with every quote inside it doubled. The text of a
  processing time of magnitude up to \<open>2^53\<close> reads back as that number.
\<close>

theorem generateCSVReport_round_trip:
  "(let rows' =
      [js ''File Name'', js ''Status'', js ''Processing Time (ms)'', js ''Patient ID'',
          js ''Patient Name'', js ''Age'', js ''Sex'', js ''Modality'', js ''Body Part'',
          js ''Study Description'', js ''Study Date'', js ''Manufacturer'', js ''Model'',
          js ''Urgent'', js ''PHI Removed'', js ''PHI Flags''] #
      map (\<lambda>f. if ProcessedFileData.status f = Success
               then [fileName f, js ''success'',
                     number_toString large_text (ProcessedFileData.processingTime f),
                     patient_id (ProcessedFileData.metadata f),
                     patient_name (ProcessedFileData.metadata f),
                     patient_age (ProcessedFileData.metadata f),
                     patient_sex (ProcessedFileData.metadata f),
                     modality (ProcessedFileData.metadata f),
                     body_part_examined (ProcessedFileData.metadata f),
                     study_description (ProcessedFileData.metadata f),
                     study_date_time (ProcessedFileData.metadata f),
                     manufacturer (ProcessedFileData.metadata f),
                     model (ProcessedFileData.metadata f),
                     if urgent (ProcessedFileData.metadata f) then js ''YES'' else js ''NO'',
                     phi_removed (ProcessedFileData.metadata f),
                     join (js '';'') (phi_flags (ProcessedFileData.metadata f))]
               else [fileName f, js ''error'',
                     number_toString large_text (ProcessedFileData.processingTime f),
                     [], [], [], [], [], [], [], [], [], [], [], [], []])
        (ReportData.files data)
    in csv_parse (generateCSVReport large_text data) = Some rows' \<and>
       length rows' = length (ReportData.files data) + 1 \<and>
       list_all (\<lambda>row. length row = 16) rows' \<and>
       generateCSVReport large_text data =
         join [10]
           (map (\<lambda>row. join [44]
                   (map (\<lambda>cell. [34] @ concat (map (\<lambda>c. if c = 34 then [34, 34] else [c]) cell) @ [34])
                      row))
              rows')) \<and>
   (\<bar>t\<bar> \<le> 2 ^ 53 \<longrightarrow> read_number (number_toString large_text t) = t)"
proof -
  let ?rows = "csv_headers # map (csv_row large_text) (ReportData.files data)"
  have e: "escape_quotes = (\<lambda>cell. concat (map (\<lambda>c. if c = 34 then [34, 34] else [c]) cell))"
    by (rule ext) (simp add: escape_quotes_def)
  have len: "list_all (\<lambda>row. length row = 16) ?rows"
    by (simp add: list_all_iff csv_headers_length csv_row_length)
  have p: "csv_parse (generateCSVReport large_text data) = Some ?rows"
    using generateCSVReport_rows[of large_text data] by (rule conjunct1)
  have q: "generateCSVReport large_text data =
     join [10]
       (map (\<lambda>row. join [44]
               (map (\<lambda>cell. [34] @ concat (map (\<lambda>c. if c = 34 then [34, 34] else [c]) cell) @ [34])
                  row))
          ?rows)"
    using generateCSVReport_rows[of large_text data, THEN conjunct2] unfolding e .
  have l: "length ?rows = length (ReportData.files data) + 1" by simp
  show ?thesis
    unfolding Let_def csv_rows_by_status[symmetric]
    apply (intro conjI impI)
        apply (rule p)
       apply (rule l)
      apply (rule len)
     apply (rule q)
    apply (erule read_number_toString)
    done
qed

theorem generateCSVReport_round_trip_witness:
  "csv_parse (generateCSVReport (\<lambda>i. []) example_report) =
     Some [[js ''File Name'', js ''Status'', js ''Processing Time (ms)'', js ''Patient ID'',
          js ''Patient Name'', js ''Age'', js ''Sex'', js ''Modality'', js ''Body Part'',
          js ''Study Description'', js ''Study Date'', js ''Manufacturer'', js ''Model'',
          js ''Urgent'', js ''PHI Removed'', js ''PHI Flags''],
           [js ''a,b.dcm'', js ''success'', js ''1500'', js ''anon_1'', js ''anon_2'', js ''45Y'',
            js ''M'', js ''C\"T'', js ''CHEST'', js ''Routine examination'', js ''2024-01-01'',
            js ''SIEMENS'', js ''SOMATOM'', js ''YES'', js ''NO'', js ''PatientName;PatientID''],
           [js ''bad.dcm'', js ''error'', js ''12'',
            [], [], [], [], [], [], [], [], [], [], [], [], []]] \<and>
   read_number (js ''1500'') = 1500"
proof -
  have f: "ReportData.files example_report =
        [\<lparr>fileName = js ''a,b.dcm'', fileSize = 1024,
          metadata = example_metadata
            \<lparr>modality := js ''C\"T'', phi_removed := js ''NO'', urgent := True,
             phi_flags := [js ''PatientName'', js ''PatientID'']\<rparr>,
          processingTime = 1500, status = Success, error = None\<rparr>,
         \<lparr>fileName = js ''bad.dcm'', fileSize = 2048, metadata = example_metadata,
          processingTime = 12, status = Error, error = Some (js ''Network error'')\<rparr>]"
    by (simp add: example_report_def)
  have n: "number_toString (\<lambda>i. []) 1500 = js ''1500''" "number_toString (\<lambda>i. []) 12 = js ''12''"
    by (simp_all add: number_toString_def digits.simps js_def)
  note t = generateCSVReport_round_trip[of "\<lambda>i. []" example_report 1500, unfolded Let_def f]
  from t[THEN conjunct1, THEN conjunct1]
  have p: "csv_parse (generateCSVReport (\<lambda>i. []) example_report) =
     Some [[js ''File Name'', js ''Status'', js ''Processing Time (ms)'', js ''Patient ID'',
          js ''Patient Name'', js ''Age'', js ''Sex'', js ''Modality'', js ''Body Part'',
          js ''Study Description'', js ''Study Date'', js ''Manufacturer'', js ''Model'',
          js ''Urgent'', js ''PHI Removed'', js ''PHI Flags''],
           [js ''a,b.dcm'', js ''success'', js ''1500'', js ''anon_1'', js ''anon_2'', js ''45Y'',
            js ''M'', js ''C\"T'', js ''CHEST'', js ''Routine examination'', js ''2024-01-01'',
            js ''SIEMENS'', js ''SOMATOM'', js ''YES'', js ''NO'', js ''PatientName;PatientID''],
           [js ''bad.dcm'', js ''error'', js ''12'',
            [], [], [], [], [], [], [], [], [], [], [], [], []]]"
    by (simp add: n example_metadata_def) (simp add: js_def)
  from t[THEN conjunct2] have r: "read_number (js ''1500'') = 1500" by (simp add: n)
  from p r show ?thesis by (rule conjI)
qed

section \<open>Properties of the batch orchestrator\<close>

subsection \<open>Properties of the state updates\<close>

lemma length_update_job: "length (update_job a g jbs) = length jbs"
  by (simp add: update_job_def)

lemma nth_update_job:
  "i < length jbs \<Longrightarrow>
   update_job a g jbs ! i = (if BatchJob.id (jbs ! i) = a then g (jbs ! i) else jbs ! i)"
  by (simp add: update_job_def)

lemma length_update_file: "length (update_file a fid g jbs) = length jbs"
  by (simp add: update_file_def length_update_job)

lemma files_update_file:
  "i < length jbs \<Longrightarrow>
   files (update_file a fid g jbs ! i) =
     (if BatchJob.id (jbs ! i) = a
      then map (\<lambda>f. if BatchFile.id f = fid then g f else f) (files (jbs ! i))
      else files (jbs ! i))"
  by (simp add: update_file_def nth_update_job)

lemma pauseJob_files:
  "i < length (jobs s) \<Longrightarrow> files (jobs (pauseJob p s) ! i) = files (jobs s ! i)"
  by (simp add: pauseJob_def nth_update_job)

lemma pauseJob_ids:
  "i < length (jobs s) \<Longrightarrow> BatchJob.id (jobs (pauseJob p s) ! i) = BatchJob.id (jobs s ! i)"
  by (simp add: pauseJob_def nth_update_job)

lemma pauseJob_length: "length (jobs (pauseJob p s)) = length (jobs s)"
  by (simp add: pauseJob_def length_update_job)

subsection \<open>One running job\<close>

lemma in_set_update_job:
  assumes "j' \<in> set (update_job a g jbs)"
  obtains j where "j \<in> set jbs" and "j' = (if BatchJob.id j = a then g j else j)"
  using assms unfolding update_job_def by auto

lemma running_inv_update_job:
  assumes "running_inv a s"
    and "\<And>j. BatchJob.id (g j) = BatchJob.id j"
    and "\<And>j. BatchJob.status (g j) = BatchJob.status j"
  shows "running_inv a (s\<lparr>jobs := update_job b g (jobs s)\<rparr>)"
proof -
  have "BatchJob.status j' = Job_running"
    if "j' \<in> set (update_job b g (jobs s))" and "BatchJob.id j' = a" for j'
  proof -
    from that(1) obtain j where j: "j \<in> set (jobs s)"
      and j': "j' = (if BatchJob.id j = b then g j else j)"
      by (rule in_set_update_job)
    from j' assms(2,3) have "BatchJob.id j' = BatchJob.id j" "BatchJob.status j' = BatchJob.status j"
      by (cases "BatchJob.id j = b"; simp)+
    with assms(1) j that(2) show ?thesis by (simp add: running_inv_def list_all_iff)
  qed
  with assms(1) show ?thesis by (simp add: running_inv_def list_all_iff)
qed

lemma running_inv_update_file:
  "running_inv a s \<Longrightarrow> running_inv a (s\<lparr>jobs := update_file b fid g (jobs s)\<rparr>)"
  unfolding update_file_def by (rule running_inv_update_job) simp_all

lemma running_inv_ticks:
  "running_inv a s \<Longrightarrow> running_inv a (s\<lparr>jobs := (update_file b fid g ^^ n) (jobs s)\<rparr>)"
proof (induction n)
  case 0
  then show ?case by simp
next
  case (Suc n)
  from running_inv_update_file[OF Suc.IH[OF Suc.prems], of b fid g] show ?case by simp
qed

lemma process_queue_aborted:
  "processingController s = Some True \<Longrightarrow> process_queue cj now a q script s = Finished s"
  by (cases q) simp_all

lemma settle_cases:
  assumes "running_inv a s"
  shows "running_inv a (settle b fid how s) \<or> processingController (settle b fid how s) = Some True"
proof (cases how)
  case (Responded r)
  then show ?thesis using running_inv_update_file[OF assms]
    by (cases r) (simp_all add: settle_def)
next
  case Rejected
  then show ?thesis using running_inv_update_file[OF assms] by (simp add: settle_def)
next
  case (Interrupted_by_pause p)
  then show ?thesis using assms
    by (simp add: settle_def Let_def pauseJob_def running_inv_def)
qed

lemma progress_step:
  "running_inv a s \<Longrightarrow>
   running_inv a (case find (\<lambda>j. BatchJob.id j = b) cj of
                    None \<Rightarrow> s
                  | Some updatedJob \<Rightarrow>
                      s\<lparr>jobs := update_job b
                           (\<lambda>j. j\<lparr>BatchJob.progress := jobProgress updatedJob\<rparr>) (jobs s)\<rparr>)"
  by (cases "find (\<lambda>j. BatchJob.id j = b) cj") (simp_all add: running_inv_update_job)

lemma progress_step_controller:
  "processingController (case find (\<lambda>j. BatchJob.id j = b) cj of
                    None \<Rightarrow> s
                  | Some updatedJob \<Rightarrow>
                      s\<lparr>jobs := update_job b
                           (\<lambda>j. j\<lparr>BatchJob.progress := jobProgress updatedJob\<rparr>) (jobs s)\<rparr>)
     = processingController s"
  by (cases "find (\<lambda>j. BatchJob.id j = b) cj") simp_all

lemma process_queue_pending:
  "running_inv a s \<Longrightarrow> process_queue cj now a q script s = Pending s' \<Longrightarrow> running_inv a s'"
proof (induction q arbitrary: script s)
  case Nil
  then show ?case by simp
next
  case (Cons f q)
  from Cons.prems(1) have c: "processingController s \<noteq> Some True" by (simp add: running_inv_def)
  let ?s1 = "s\<lparr>jobs := update_file a (BatchFile.id f) (mark_processing now) (jobs s)\<rparr>"
  have i1: "running_inv a ?s1" using Cons.prems(1) by (rule running_inv_update_file)
  show ?case
  proof (cases script)
    case Nil
    with Cons.prems(2) c have "s' = ?s1" by simp
    with i1 show ?thesis by simp
  next
    case (Cons fl script')
    obtain ticks how where fl: "fl = (ticks, how)" by (cases fl)
    let ?s2 = "?s1\<lparr>jobs := (update_file a (BatchFile.id f) tick ^^ ticks) (jobs ?s1)\<rparr>"
    let ?s3 = "settle a (BatchFile.id f) how ?s2"
    let ?s4 = "case find (\<lambda>j. BatchJob.id j = a) cj of
                    None \<Rightarrow> ?s3
                  | Some updatedJob \<Rightarrow>
                      ?s3\<lparr>jobs := update_job a
                           (\<lambda>j. j\<lparr>BatchJob.progress := jobProgress updatedJob\<rparr>) (jobs ?s3)\<rparr>"
    have step: "process_queue cj now a (f # q) script s = process_queue cj now a q script' ?s4"
      using c Cons fl by (simp add: Let_def)
    have i2: "running_inv a ?s2" using i1 by (rule running_inv_ticks)
    from settle_cases[OF i2, of a "BatchFile.id f" how]
    show ?thesis
    proof
      assume "running_inv a ?s3"
      then have "running_inv a ?s4" by (rule progress_step)
      with Cons.IH[of ?s4 script'] Cons.prems(2) step show ?thesis by simp
    next
      assume "processingController ?s3 = Some True"
      then have "processingController ?s4 = Some True" by (simp add: progress_step_controller)
      then have "process_queue cj now a q script' ?s4 = Finished ?s4" by (rule process_queue_aborted)
      with Cons.prems(2) step show ?thesis by simp
    qed
  qed
qed

lemma startJob_pending:
  assumes "startJob now a script s = Pending s'"
  shows "running_inv a s'"
proof -
  from assms obtain job where f: "find (\<lambda>j. BatchJob.id j = a) (jobs s) = Some job"
    by (cases "find (\<lambda>j. BatchJob.id j = a) (jobs s)") (simp_all add: startJob_def)
  from assms f have nr: "BatchJob.status job \<noteq> Job_running"
    by (auto simp: startJob_def)
  let ?s1 = "s\<lparr>activeJobId := Some a, processingController := Some False,
                       jobs := update_job a (mark_running now) (jobs s)\<rparr>"
  let ?q = "filter (\<lambda>f. BatchFile.status f = File_queued \<or>
                                           BatchFile.status f = File_paused) (files job)"
  have "BatchJob.status j' = Job_running"
    if "j' \<in> set (update_job a (mark_running now) (jobs s))" and "BatchJob.id j' = a" for j'
  proof -
    from that(1) obtain j where "j' = (if BatchJob.id j = a then mark_running now j else j)"
      by (rule in_set_update_job)
    with that(2) show ?thesis
      by (cases "BatchJob.id j = a") (simp_all add: mark_running_def)
  qed
  then have i1: "running_inv a ?s1"
    by (simp add: running_inv_def list_all_iff)
  from assms f nr have "process_queue (jobs s) now a ?q script ?s1 = Pending s'"
    by (simp add: startJob_def Let_def split: run.splits)
  with i1 show ?thesis by (rule process_queue_pending)
qed

text \<open>
  C1, as stated, at a concrete input. Job A has been started and its first request is
  under way: its status is \<open>running\<close>. Job B is another job, idle, with one queued file.
  \<open>startJob\<close> on B is not rejected: it runs B's file to \<open>completed\<close> and B itself to
  \<open>completed\<close>; its guard looks at the status of B only.
\<close>

theorem startJob_second_job_counterexample:
  "job_A \<noteq> job_B \<and>
   job_view job_A running_A =
     [(Job_running, Finite 0, [(File_processing, 0), (File_queued, 0), (File_queued, 0)])] \<and>
   job_view job_B running_A = [(Job_idle, Finite 0, [(File_queued, 0)])] \<and>
   job_view job_B
     (state_of (startJob 5 job_B [(1, Responded (Response_ok example_metadata 7))] running_A)) =
     [(Job_completed, Finite 100, [(File_completed, 100)])]"
  by code_simp

text \<open>
  C1, amended. While a job A that was started is still being processed (its call of
  \<open>startJob\<close> is suspended in a request), A is the active job and its status is
  \<open>running\<close>; the Start control of every other job B is then disabled or absent, so a click
  on it calls nothing and leaves the whole state, every job and file of it, as it is.
  \<open>startJob\<close> itself rejects a job that is unknown or is itself running, as A is here.
\<close>

theorem start_control_rejects_second_job:
  assumes "startJob now a script s = Pending s'" and "BatchJob.id b \<noteq> a"
  shows "activeJobId s' = Some a \<and>
         list_all (\<lambda>j. BatchJob.id j = a \<longrightarrow> BatchJob.status j = Job_running) (jobs s') \<and>
         start_control s' b \<noteq> Some False \<and>
         click_start now' b script' s' = Finished s' \<and>
         startJob now' a script' s' = Finished s'"
proof -
  from startJob_pending[OF assms(1)] have act: "activeJobId s' = Some a"
    and run: "list_all (\<lambda>j. BatchJob.id j = a \<longrightarrow> BatchJob.status j = Job_running) (jobs s')"
    by (simp_all add: running_inv_def)
  from act assms(2) have ctl: "start_control s' b \<noteq> Some False"
    by (auto simp: start_control_def)
  then have click: "click_start now' b script' s' = Finished s'"
    by (simp add: click_start_def)
  have again: "startJob now' a script' s' = Finished s'"
  proof (cases "find (\<lambda>j. BatchJob.id j = a) (jobs s')")
    case None
    then show ?thesis by (simp add: startJob_def)
  next
    case (Some j)
    then have "j \<in> set (jobs s')" and "BatchJob.id j = a"
      by (auto simp: find_Some_iff)
    with run have "BatchJob.status j = Job_running" by (simp add: list_all_iff)
    with Some show ?thesis by (simp add: startJob_def)
  qed
  from act run ctl click again show ?thesis by simp
qed

theorem start_control_rejects_second_job_witness:
  "activeJobId running_A = Some job_A \<and>
   click_start 5 (hd (jobs running_A)) [(1, Responded (Response_ok example_metadata 7))] running_A =
     Finished running_A \<and>
   BatchJob.id (hd (jobs running_A)) = job_B"
proof -
  have p: "startJob 0 job_A [] two_jobs = Pending running_A"
    unfolding running_A_def by code_simp
  have b: "BatchJob.id (hd (jobs running_A)) = job_B" by code_simp
  have ne: "BatchJob.id (hd (jobs running_A)) \<noteq> job_A" unfolding b by code_simp
  from start_control_rejects_second_job[OF p ne] b show ?thesis by simp
qed

subsection \<open>Pausing\<close>

lemma in_flight_iff:
  "in_flight jobId fileId s \<longleftrightarrow>
     (\<forall>j\<in>set (jobs s). BatchJob.id j = jobId \<longrightarrow>
        (\<forall>f\<in>set (files j). BatchFile.id f = fileId \<longrightarrow> BatchFile.status f = File_processing))"
  by (simp add: in_flight_def list_all_iff)

lemma in_set_update_file:
  assumes "j' \<in> set (update_file a fid g jbs)"
  obtains j where "j \<in> set jbs" and "BatchJob.id j' = BatchJob.id j"
    and "files j' = (if BatchJob.id j = a
                     then map (\<lambda>f. if BatchFile.id f = fid then g f else f) (files j)
                     else files j)"
proof -
  from assms obtain j where j: "j \<in> set jbs"
    and j': "j' = (if BatchJob.id j = a
                   then j\<lparr>files := map (\<lambda>f. if BatchFile.id f = fid then g f else f) (files j)\<rparr>
                   else j)"
    unfolding update_file_def update_job_def by auto
  show thesis
  proof (rule that[OF j])
    show "BatchJob.id j' = BatchJob.id j" using j' by simp
    show "files j' = (if BatchJob.id j = a
                     then map (\<lambda>f. if BatchFile.id f = fid then g f else f) (files j)
                     else files j)" using j' by simp
  qed
qed

lemma in_flight_update_file:
  assumes "\<And>f. BatchFile.id f = fileId \<Longrightarrow> BatchFile.status (g f) = File_processing"
    and "\<And>f. BatchFile.status f = File_processing \<Longrightarrow> BatchFile.status (g f) = File_processing"
  shows "in_flight jobId fileId (s\<lparr>jobs := update_file jobId fileId g (jobs s)\<rparr>)"
  unfolding in_flight_iff
proof (intro ballI impI)
  fix j' f'
  assume j': "j' \<in> set (jobs (s\<lparr>jobs := update_file jobId fileId g (jobs s)\<rparr>))"
    and id': "BatchJob.id j' = jobId"
    and f': "f' \<in> set (files j')" and fid: "BatchFile.id f' = fileId"
  from j' have "j' \<in> set (update_file jobId fileId g (jobs s))" by simp
  then obtain j where "j \<in> set (jobs s)" and ij: "BatchJob.id j' = BatchJob.id j"
    and fs: "files j' = (if BatchJob.id j = jobId
                     then map (\<lambda>f. if BatchFile.id f = fileId then g f else f) (files j)
                     else files j)"
    by (rule in_set_update_file)
  from fs ij id' have "files j' = map (\<lambda>f. if BatchFile.id f = fileId then g f else f) (files j)"
    by simp
  with f' have "f' \<in> (\<lambda>f. if BatchFile.id f = fileId then g f else f) ` set (files j)"
    by simp
  then obtain f where "f' = (if BatchFile.id f = fileId then g f else f)" by blast
  with fid assms(1) show "BatchFile.status f' = File_processing"
    by (cases "BatchFile.id f = fileId") simp_all
qed

lemma in_flight_mark_processing:
  "in_flight jobId fileId (s\<lparr>jobs := update_file jobId fileId (mark_processing now) (jobs s)\<rparr>)"
  by (rule in_flight_update_file) (simp_all add: mark_processing_def)

lemma in_flight_tick:
  "in_flight jobId fileId s \<Longrightarrow>
   in_flight jobId fileId (s\<lparr>jobs := update_file jobId fileId tick (jobs s)\<rparr>)"
  unfolding in_flight_iff
proof (intro ballI impI)
  fix j' f'
  assume inv: "\<forall>j\<in>set (jobs s). BatchJob.id j = jobId \<longrightarrow>
        (\<forall>f\<in>set (files j). BatchFile.id f = fileId \<longrightarrow> BatchFile.status f = File_processing)"
    and j': "j' \<in> set (jobs (s\<lparr>jobs := update_file jobId fileId tick (jobs s)\<rparr>))"
    and id': "BatchJob.id j' = jobId"
    and f': "f' \<in> set (files j')" and fid: "BatchFile.id f' = fileId"
  from j' have "j' \<in> set (update_file jobId fileId tick (jobs s))" by simp
  then obtain j where j: "j \<in> set (jobs s)" and ij: "BatchJob.id j' = BatchJob.id j"
    and fs: "files j' = (if BatchJob.id j = jobId
                     then map (\<lambda>f. if BatchFile.id f = fileId then tick f else f) (files j)
                     else files j)"
    by (rule in_set_update_file)
  from fs ij id' have "files j' = map (\<lambda>f. if BatchFile.id f = fileId then tick f else f) (files j)"
    by simp
  with f' have "f' \<in> (\<lambda>f. if BatchFile.id f = fileId then tick f else f) ` set (files j)"
    by simp
  then obtain f where f: "f \<in> set (files j)"
    and ff: "f' = (if BatchFile.id f = fileId then tick f else f)" by blast
  have tid: "BatchFile.id (tick f) = BatchFile.id f" by (simp add: tick_def)
  from ff fid tid have "BatchFile.id f = fileId" by (cases "BatchFile.id f = fileId") simp_all
  with inv j ij id' f have "BatchFile.status f = File_processing" by simp
  then have "BatchFile.status (tick f) = File_processing" by (simp add: tick_def)
  with ff \<open>BatchFile.id f = fileId\<close> show "BatchFile.status f' = File_processing" by simp
qed

lemma in_flight_ticks:
  "in_flight jobId fileId s \<Longrightarrow>
   in_flight jobId fileId (s\<lparr>jobs := (update_file jobId fileId tick ^^ n) (jobs s)\<rparr>)"
proof (induction n)
  case 0
  then show ?case by simp
next
  case (Suc n)
  from in_flight_tick[OF Suc.IH[OF Suc.prems]] show ?case by simp
qed

lemma in_flight_request:
  "in_flight jobId fileId
     (s\<lparr>jobs := (update_file jobId fileId tick ^^ n)
                 (update_file jobId fileId (mark_processing now) (jobs s))\<rparr>)"
  using in_flight_ticks[OF in_flight_mark_processing, of jobId fileId n now s] by simp

lemma queued_file_total_positive:
  "f \<in> set (filter P (files job)) \<Longrightarrow> 0 < length (files job)"
  by (cases "files job") simp_all

text \<open>
  C9. A file whose status is \<open>completed\<close> or \<open>error\<close> is left as it is, in every field, by
  \<open>pauseJob\<close> (which changes no file at all, and keeps the jobs and their order), and by
  what the interrupted request then does (it marks as paused the file under way, which is
  processing and so is another file).
\<close>

theorem pauseJob_keeps_terminal_files:
  assumes "i < length (jobs s)" and "k < length (files (jobs s ! i))"
    and "terminal (BatchFile.status (files (jobs s ! i) ! k))"
  shows "length (jobs (pauseJob p s)) = length (jobs s) \<and>
         BatchJob.id (jobs (pauseJob p s) ! i) = BatchJob.id (jobs s ! i) \<and>
         files (jobs (pauseJob p s) ! i) ! k = files (jobs s ! i) ! k \<and>
         (in_flight jobId fileId s \<longrightarrow>
            length (files (jobs (settle jobId fileId (Interrupted_by_pause p) s) ! i))
              = length (files (jobs s ! i)) \<and>
            files (jobs (settle jobId fileId (Interrupted_by_pause p) s) ! i) ! k
              = files (jobs s ! i) ! k)"
proof -
  let ?f = "files (jobs s ! i) ! k"
  have a: "length (jobs (pauseJob p s)) = length (jobs s)" by (rule pauseJob_length)
  have b: "BatchJob.id (jobs (pauseJob p s) ! i) = BatchJob.id (jobs s ! i)"
    using assms(1) by (rule pauseJob_ids)
  have c: "files (jobs (pauseJob p s) ! i) = files (jobs s ! i)"
    using assms(1) by (rule pauseJob_files)
  have d: "length (files (jobs (settle jobId fileId (Interrupted_by_pause p) s) ! i))
              = length (files (jobs s ! i)) \<and>
           files (jobs (settle jobId fileId (Interrupted_by_pause p) s) ! i) ! k = ?f"
    if fl: "in_flight jobId fileId s"
  proof -
    have js: "jobs (settle jobId fileId (Interrupted_by_pause p) s) =
              update_file jobId fileId mark_file_paused (jobs (pauseJob p s))"
      by (simp add: settle_def Let_def)
    have i': "i < length (jobs (pauseJob p s))" using assms(1) a by simp
    show ?thesis
    proof (cases "BatchJob.id (jobs s ! i) = jobId")
      case False
      then show ?thesis unfolding js using i' b c by (simp add: files_update_file)
    next
      case True
      have "jobs s ! i \<in> set (jobs s)" using assms(1) by simp
      with fl True have "list_all (\<lambda>f. BatchFile.id f = fileId \<longrightarrow> BatchFile.status f = File_processing)
                   (files (jobs s ! i))"
        by (simp add: in_flight_def list_all_iff)
      moreover have "?f \<in> set (files (jobs s ! i))" using assms(2) by simp
      ultimately have "BatchFile.id ?f = fileId \<longrightarrow> BatchFile.status ?f = File_processing"
        by (simp add: list_all_iff)
      with assms(3) have "BatchFile.id ?f \<noteq> fileId" by (auto simp: terminal_def)
      then show ?thesis unfolding js using i' b c True assms(2) by (simp add: files_update_file)
    qed
  qed
  from a b c d show ?thesis by simp
qed

theorem pauseJob_keeps_terminal_files_witness:
  "terminal (BatchFile.status (files (jobs second_in_flight ! 1) ! 0)) \<and>
   files (jobs (pauseJob job_A second_in_flight) ! 1) ! 0 = files (jobs second_in_flight ! 1) ! 0 \<and>
   files (jobs (settle job_A (js ''job_A_file_1'') (Interrupted_by_pause job_A) second_in_flight) ! 1) ! 0
     = files (jobs second_in_flight ! 1) ! 0 \<and>
   BatchFile.status (files (jobs second_in_flight ! 1) ! 1) = File_processing \<and>
   BatchFile.status
     (files (jobs (settle job_A (js ''job_A_file_1'') (Interrupted_by_pause job_A) second_in_flight) ! 1) ! 1)
     = File_paused"
proof -
  have h1: "1 < length (jobs second_in_flight)" by code_simp
  have h2: "0 < length (files (jobs second_in_flight ! 1))" by code_simp
  have h3: "terminal (BatchFile.status (files (jobs second_in_flight ! 1) ! 0))" by code_simp
  have h4: "in_flight job_A (js ''job_A_file_1'') second_in_flight" by code_simp
  have h5: "BatchFile.status (files (jobs second_in_flight ! 1) ! 1) = File_processing"
    by code_simp
  have h6: "BatchFile.status
     (files (jobs (settle job_A (js ''job_A_file_1'') (Interrupted_by_pause job_A) second_in_flight) ! 1) ! 1)
     = File_paused"
    by code_simp
  from pauseJob_keeps_terminal_files[OF h1 h2 h3, of job_A job_A "js ''job_A_file_1''"] h3 h4 h5 h6
  show ?thesis by simp
qed

subsection \<open>What a pause leaves behind\<close>

lemma startJob_finished:
  assumes "startJob now a script s = Finished s'"
    and "find (\<lambda>j. BatchJob.id j = a) (jobs s) = Some job"
    and "BatchJob.status job \<noteq> Job_running"
    and "j' \<in> set (jobs s')" and "BatchJob.id j' = a"
  shows "BatchJob.status j' = Job_completed \<and> BatchJob.progress j' = Finite 100"
proof -
  let ?s1 = "s\<lparr>activeJobId := Some a, processingController := Some False,
                       jobs := update_job a (mark_running now) (jobs s)\<rparr>"
  let ?q = "filter (\<lambda>f. BatchFile.status f = File_queued \<or>
                                           BatchFile.status f = File_paused) (files job)"
  from assms(1-3) obtain s2 where "process_queue (jobs s) now a ?q script ?s1 = Finished s2"
    and s': "s' = s2\<lparr>jobs := update_job a (mark_job_completed now) (jobs s2),
                                activeJobId := None, processingController := None\<rparr>"
    by (auto simp: startJob_def Let_def split: run.splits)
  from assms(4) s' have "j' \<in> set (update_job a (mark_job_completed now) (jobs s2))" by simp
  then obtain j where "j' = (if BatchJob.id j = a then mark_job_completed now j else j)"
    by (rule in_set_update_job)
  with assms(5) show ?thesis
    by (cases "BatchJob.id j = a") (simp_all add: mark_job_completed_def)
qed

text \<open>
  C2 at its scenario: a job of three files, the first request answered, \<open>pauseJob\<close> called
  during the second. When the interrupted call of \<open>startJob\<close> has returned, the first file
  is completed, the second is paused with progress 0 and the third is still queued, as
  claimed; but the job is \<open>completed\<close> with progress 100, not \<open>paused\<close>: after the loop is
  left through \<open>break\<close>, the statement that marks the job completed still runs, and it
  overwrites the status that \<open>pauseJob\<close> wrote. A further \<open>startJob\<close> on the job then
  processes the second and third file.
\<close>

theorem pauseJob_job_ends_completed:
  "startJob 0 job_A pause_script two_jobs = Finished after_pause \<and>
   job_view job_A after_pause =
     [(Job_completed, Finite 100, [(File_completed, 100), (File_paused, 0), (File_queued, 0)])] \<and>
   job_view job_A
     (state_of (startJob 9 job_A [(0, Responded (Response_ok example_metadata 7)),
                                  (1, Responded (Response_ok example_metadata 8))] after_pause)) =
     [(Job_completed, Finite 100, [(File_completed, 100), (File_completed, 100), (File_completed, 100)])]"
  unfolding after_pause_def by code_simp

subsection \<open>The progress of a job\<close>

lemma shows_progress_update_job:
  assumes "shows_progress a p s"
    and "\<And>j. BatchJob.id (g j) = BatchJob.id j"
    and "\<And>j. BatchJob.progress (g j) = BatchJob.progress j"
  shows "shows_progress a p (s\<lparr>jobs := update_job b g (jobs s)\<rparr>)"
proof -
  have "BatchJob.progress j' = p"
    if "j' \<in> set (update_job b g (jobs s))" and "BatchJob.id j' = a" for j'
  proof -
    from that(1) obtain j where j: "j \<in> set (jobs s)"
      and j': "j' = (if BatchJob.id j = b then g j else j)"
      by (rule in_set_update_job)
    from j' assms(2,3) have "BatchJob.id j' = BatchJob.id j" "BatchJob.progress j' = BatchJob.progress j"
      by (cases "BatchJob.id j = b"; simp)+
    with assms(1) j that(2) show ?thesis by (simp add: shows_progress_def list_all_iff)
  qed
  then show ?thesis by (simp add: shows_progress_def list_all_iff)
qed

lemma shows_progress_update_file:
  "shows_progress a p s \<Longrightarrow> shows_progress a p (s\<lparr>jobs := update_file b fid g (jobs s)\<rparr>)"
  unfolding update_file_def by (rule shows_progress_update_job) simp_all

lemma shows_progress_ticks:
  "shows_progress a p s \<Longrightarrow> shows_progress a p (s\<lparr>jobs := (update_file b fid g ^^ n) (jobs s)\<rparr>)"
proof (induction n)
  case 0
  then show ?case by simp
next
  case (Suc n)
  from shows_progress_update_file[OF Suc.IH[OF Suc.prems], of b fid g] show ?case by simp
qed

lemma shows_progress_settle:
  assumes "shows_progress a p s"
  shows "shows_progress a p (settle b fid how s)"
proof (cases how)
  case (Responded r)
  then show ?thesis using shows_progress_update_file[OF assms]
    by (cases r) (simp_all add: settle_def)
next
  case Rejected
  then show ?thesis using shows_progress_update_file[OF assms] by (simp add: settle_def)
next
  case (Interrupted_by_pause q)
  have "shows_progress a p (s\<lparr>jobs := update_job q (\<lambda>j. j\<lparr>BatchJob.status := Job_paused\<rparr>) (jobs s)\<rparr>)"
    using assms by (rule shows_progress_update_job) simp_all
  then have "shows_progress a p (pauseJob q s)"
    by (simp add: pauseJob_def shows_progress_def)
  from shows_progress_update_file[OF this, where b=b and fid=fid and g=mark_file_paused]
    Interrupted_by_pause
  show ?thesis by (simp add: settle_def Let_def)
qed

lemma shows_progress_written:
  "shows_progress a p (s\<lparr>jobs := update_job a (\<lambda>j. j\<lparr>BatchJob.progress := p\<rparr>) (jobs s)\<rparr>)"
proof -
  have "BatchJob.progress j' = p"
    if "j' \<in> set (update_job a (\<lambda>j. j\<lparr>BatchJob.progress := p\<rparr>) (jobs s))"
      and "BatchJob.id j' = a" for j'
  proof -
    from that(1) obtain j where "j' = (if BatchJob.id j = a then j\<lparr>BatchJob.progress := p\<rparr> else j)"
      by (rule in_set_update_job)
    with that(2) show ?thesis by (cases "BatchJob.id j = a") simp_all
  qed
  then show ?thesis by (simp add: shows_progress_def list_all_iff)
qed

text \<open>
  Whatever the requests bring, once the first file of the queue has been dealt with the
  loop only ever writes one progress value: that of the job as it was when \<open>startJob\<close> was
  called.
\<close>

lemma process_queue_keeps_progress:
  assumes "find (\<lambda>j. BatchJob.id j = a) cj = Some job"
    and "shows_progress a (jobProgress job) s"
  shows "shows_progress a (jobProgress job) (state_of (process_queue cj now a q script s))"
  using assms(2)
proof (induction q arbitrary: script s)
  case Nil
  then show ?case by (simp add: state_of_def)
next
  case (Cons f q)
  show ?case
  proof (cases "processingController s = Some True")
    case True
    with Cons.prems show ?thesis by (simp add: state_of_def)
  next
    case False
    let ?s1 = "s\<lparr>jobs := update_file a (BatchFile.id f) (mark_processing now) (jobs s)\<rparr>"
    have i1: "shows_progress a (jobProgress job) ?s1"
      using Cons.prems by (rule shows_progress_update_file)
    show ?thesis
    proof (cases script)
      case Nil
      with False i1 show ?thesis by (simp add: state_of_def)
    next
      case (Cons fl script')
      obtain ticks how where fl: "fl = (ticks, how)" by (cases fl)
      let ?s2 = "?s1\<lparr>jobs := (update_file a (BatchFile.id f) tick ^^ ticks) (jobs ?s1)\<rparr>"
      let ?s3 = "settle a (BatchFile.id f) how ?s2"
      let ?s4 = "?s3\<lparr>jobs := update_job a
                           (\<lambda>j. j\<lparr>BatchJob.progress := jobProgress job\<rparr>) (jobs ?s3)\<rparr>"
      have step: "process_queue cj now a (f # q) script s = process_queue cj now a q script' ?s4"
        using False Cons fl assms(1) by (simp add: Let_def)
      have "shows_progress a (jobProgress job) ?s4" by (rule shows_progress_written)
      from Cons.IH[OF this, of script'] step show ?thesis by simp
    qed
  qed
qed

lemma process_queue_first_progress:
  assumes "find (\<lambda>j. BatchJob.id j = a) cj = Some job"
    and "processingController s \<noteq> Some True"
  shows "shows_progress a (jobProgress job)
           (state_of (process_queue cj now a (f # q) ((ticks, how) # script) s))"
proof -
  let ?s1 = "s\<lparr>jobs := update_file a (BatchFile.id f) (mark_processing now) (jobs s)\<rparr>"
  let ?s2 = "?s1\<lparr>jobs := (update_file a (BatchFile.id f) tick ^^ ticks) (jobs ?s1)\<rparr>"
  let ?s3 = "settle a (BatchFile.id f) how ?s2"
  let ?s4 = "?s3\<lparr>jobs := update_job a
                           (\<lambda>j. j\<lparr>BatchJob.progress := jobProgress job\<rparr>) (jobs ?s3)\<rparr>"
  have step: "process_queue cj now a (f # q) ((ticks, how) # script) s =
              process_queue cj now a q script ?s4"
    using assms by (simp add: Let_def)
  have "shows_progress a (jobProgress job) ?s4" by (rule shows_progress_written)
  from process_queue_keeps_progress[OF assms(1) this, of now q script] step show ?thesis by simp
qed

text \<open>
  A call of \<open>startJob\<close> that has dealt with at least one file and is suspended in a later
  request shows, for its job, the progress of the job as it was when the call was made.
\<close>

lemma startJob_pending_progress:
  assumes "find (\<lambda>j. BatchJob.id j = a) (jobs s) = Some job"
    and "startJob now a (fl # script) s = Pending s'"
  shows "shows_progress a (jobProgress job) s'"
proof -
  from assms have nr: "BatchJob.status job \<noteq> Job_running"
    by (auto simp: startJob_def)
  let ?s1 = "s\<lparr>activeJobId := Some a, processingController := Some False,
                       jobs := update_job a (mark_running now) (jobs s)\<rparr>"
  let ?q = "filter (\<lambda>f. BatchFile.status f = File_queued \<or>
                                           BatchFile.status f = File_paused) (files job)"
  from assms nr have p: "process_queue (jobs s) now a ?q (fl # script) ?s1 = Pending s'"
    by (simp add: startJob_def Let_def split: run.splits)
  then obtain f q where q: "?q = f # q" by (cases ?q) simp_all
  obtain ticks how where fl: "fl = (ticks, how)" by (cases fl)
  have "processingController ?s1 \<noteq> Some True" by simp
  from process_queue_first_progress[OF assms(1) this, of now f q ticks how script] p
  show ?thesis unfolding q fl by (simp add: state_of_def)
qed

text \<open>
  The rounding at some quotients. At 23 of 40 the product in double precision is just
  below 57.5, where the exact quotient is 57.5; at 29 of 200 it is just below 14.5.
\<close>

lemmas double_defs = round_percent_def to_double_def scaled_def double_times_def math_round_def
  bit_length.simps Let_def

lemma round_percent_examples:
  "round_percent 1 3 = Finite 33 \<and> round_percent 2 3 = Finite 67 \<and>
   round_percent 1 8 = Finite 13 \<and> round_percent 1 40 = Finite 3 \<and>
   round_percent 23 40 = Finite 57 \<and> round_percent 29 200 = Finite 14 \<and>
   round_percent 3 3 = Finite 100 \<and> round_percent 0 0 = Not_a_number"
  by (simp add: double_defs)

text \<open>
  The progress of a job that has a file is a natural number; and \<open>startJob\<close> computes the
  progress of no other job: on a job without files it has no request to make and returns
  at once, with the job marked completed.
\<close>

lemma jobProgress_finite: "files job \<noteq> [] \<Longrightarrow> \<exists>p. jobProgress job = Finite p"
  by (simp add: jobProgress_def round_percent_def Let_def)

lemma startJob_without_files:
  assumes "find (\<lambda>j. BatchJob.id j = a) (jobs s) = Some job"
    and "BatchJob.status job \<noteq> Job_running" and "files job = []"
  shows "startJob now a script s =
           Finished (s\<lparr>activeJobId := None, processingController := None,
                        jobs := update_job a (mark_job_completed now)
                                  (update_job a (mark_running now) (jobs s))\<rparr>)"
  using assms by (simp add: startJob_def Let_def)

text \<open>
  C3 at a concrete input: a job of three files whose first file has just been completed.
  The progress written after the file is computed from the job as the running call saw it
  when it was started, which had no completed file: the job shows 0 where one file out of
  three gives 33. After a pause the job shows 100 with one file out of three completed.
\<close>

theorem job_progress_stale:
  "job_view job_A second_in_flight =
     [(Job_running, Finite 0, [(File_completed, 100), (File_processing, 0), (File_queued, 0)])] \<and>
   round_percent 1 3 = Finite 33 \<and>
   map (\<lambda>(st, p, fs). p) (job_view job_A after_pause) = [Finite 100]"
  proof -
  have a: "job_view job_A second_in_flight =
     [(Job_running, Finite 0, [(File_completed, 100), (File_processing, 0), (File_queued, 0)])]"
    by code_simp
  have b: "round_percent 1 3 = Finite 33" by (simp add: double_defs)
  have c: "map (\<lambda>(st, p, fs). p) (job_view job_A after_pause) = [Finite 100]"
    by code_simp
  from a b c show ?thesis by (intro conjI)
qed

end
